theory Spec2Isabelle
  imports Complex_Main "HOL-Library.AList" "HOL-Library.Sublist"
begin

section \<open>The SwarmHack tracking server (src/server.py)\<close>

text \<open>
  The server has two activities: the thread \<^verbatim>\<open>Tracker.run\<close>, which turns the marker
  detections of every camera frame into the dictionary \<^verbatim>\<open>tracker.robots\<close>, and the
  coroutine \<^verbatim>\<open>handler\<close>, which answers JSON requests from that dictionary.

  Conventions of the embedding:
  \<^item> Python \<^verbatim>\<open>int\<close> is \<open>int\<close>; Python \<^verbatim>\<open>float\<close> is idealised as \<open>real\<close> (no rounding,
    no infinities, no NaN), so \<^verbatim>\<open>math.dist\<close>, \<^verbatim>\<open>math.atan2\<close> and \<^verbatim>\<open>math.degrees\<close> are
    their mathematical counterparts; the last section of definitions repeats the cycle
    with the floating-point operations left open, for the one property where rounding
    decides the outcome;
  \<^item> a Python \<^verbatim>\<open>dict\<close> is an association list with distinct keys in insertion order;
    \<^verbatim>\<open>d[k] = v\<close> is \<open>AList.update k v d\<close> (overwrite in place, else append);
  \<^item> an exception is a value \<open>Inl e\<close> of the sum type \<open>error + 'a\<close>;
  \<^item> the calls into OpenCV that draw or display (lines 132-198 apart from the
    neighbour loop) touch no field of the tracker and are left out.
\<close>

subsection \<open>Exceptions and library functions\<close>

datatype error = IndexError | KeyError | TypeError | ZeroDivisionError | JSONDecodeError

text \<open>\<^verbatim>\<open>xs[i]\<close> for a constant index \<open>i \<ge> 0\<close>: out of range raises \<^verbatim>\<open>IndexError\<close>.\<close>

definition getitem :: "'a list \<Rightarrow> nat \<Rightarrow> error + 'a" where
  "getitem xs i = (if i < length xs then Inr (xs ! i) else Inl IndexError)"

text \<open>\<^verbatim>\<open>int(f)\<close> on a float truncates towards zero.\<close>

definition py_int :: "real \<Rightarrow> int" where
  "py_int r = (if 0 \<le> r then \<lfloor>r\<rfloor> else \<lceil>r\<rceil>)"

text \<open>\<^verbatim>\<open>math.dist(p, q)\<close> for two coordinate lists of the same length.\<close>

definition math_dist :: "real list \<Rightarrow> real list \<Rightarrow> real" where
  "math_dist p q = sqrt (sum_list (map2 (\<lambda>a b. (a - b)\<^sup>2) p q))"

text \<open>\<^verbatim>\<open>math.atan2(y, x)\<close>: the angle of the vector \<open>(x, y)\<close> in \<open>(-\<pi>, \<pi>]\<close>, and 0 at the origin.\<close>

definition atan2 :: "real \<Rightarrow> real \<Rightarrow> real" where
  "atan2 y x =
     (if 0 < x then arctan (y / x)
      else if x < 0 then (if 0 \<le> y then arctan (y / x) + pi else arctan (y / x) - pi)
      else if 0 < y then pi / 2
      else if y < 0 then - (pi / 2)
      else 0)"

text \<open>\<^verbatim>\<open>math.degrees(r)\<close>.\<close>

definition degrees :: "real \<Rightarrow> real" where
  "degrees r = r * 180 / pi"

subsection \<open>Vector2D\<close>

text \<open>
  Modelled from the spec: \<^verbatim>\<open>Vector2D\<close> is imported from the module \<^verbatim>\<open>virtual_objects\<close>,
  which is not among the sources. The spec calls it a 2D point; the server only
  constructs it from two coordinates and reads them back as \<^verbatim>\<open>.x\<close> and \<^verbatim>\<open>.y\<close>
  (here \<open>vx\<close> and \<open>vy\<close>). Tag geometry holds integers, robot positions hold floats.
\<close>

datatype 'a Vector2D = Vector2D (vx: 'a) (vy: 'a)

subsection \<open>class Tag\<close>

text \<open>
  \<^verbatim>\<open>raw_tag.tolist()\<close> is a list holding one list of corners, each corner a list of
  coordinates. The fields \<^verbatim>\<open>id\<close>, \<^verbatim>\<open>tl\<close>, \<^verbatim>\<open>tr\<close>, \<^verbatim>\<open>br\<close>, \<^verbatim>\<open>bl\<close> are \<open>t_id\<close>, \<open>t_tl\<close>, \<open>t_tr\<close>,
  \<open>t_br\<close>, \<open>t_bl\<close> here.
\<close>

type_synonym raw_tag = "real list list list"

record Tag =
  t_id :: int
  raw_tag :: raw_tag
  corners :: "real list list"
  t_tl :: "int Vector2D"
  t_tr :: "int Vector2D"
  t_br :: "int Vector2D"
  t_bl :: "int Vector2D"
  centre :: "int Vector2D"
  front :: "int Vector2D"
  angle :: real

text \<open>\<^verbatim>\<open>Vector2D(int(self.corners[i][0]), int(self.corners[i][1]))\<close>\<close>

definition corner_point :: "real list list \<Rightarrow> nat \<Rightarrow> error + int Vector2D" where
  "corner_point cs i =
     (case getitem cs i of Inl e \<Rightarrow> Inl e | Inr c \<Rightarrow>
      (case getitem c 0 of Inl e \<Rightarrow> Inl e | Inr cx \<Rightarrow>
       (case getitem c 1 of Inl e \<Rightarrow> Inl e | Inr cy \<Rightarrow>
          Inr (Vector2D (py_int cx) (py_int cy)))))"

text \<open>\<^verbatim>\<open>Tag.__init__\<close>, lines 23-43.\<close>

definition Tag_init :: "int \<Rightarrow> raw_tag \<Rightarrow> error + Tag" where
  "Tag_init i raw =
     (case getitem raw 0 of Inl e \<Rightarrow> Inl e | Inr cs \<Rightarrow>
      (case corner_point cs 0 of Inl e \<Rightarrow> Inl e | Inr ptl \<Rightarrow>
       (case corner_point cs 1 of Inl e \<Rightarrow> Inl e | Inr ptr \<Rightarrow>
        (case corner_point cs 2 of Inl e \<Rightarrow> Inl e | Inr pbr \<Rightarrow>
         (case corner_point cs 3 of Inl e \<Rightarrow> Inl e | Inr pbl \<Rightarrow>
            (let c = Vector2D (py_int (real_of_int (vx ptl + vx ptr + vx pbr + vx pbl) / 4))
                              (py_int (real_of_int (vy ptl + vy ptr + vy pbr + vy pbl) / 4));
                 f = Vector2D (py_int (real_of_int (vx ptl + vx ptr) / 2))
                              (py_int (real_of_int (vy ptl + vy ptr) / 2));
                 a = degrees (atan2 (real_of_int (vy f - vy c)) (real_of_int (vx f - vx c)))
             in Inr \<lparr>t_id = i, raw_tag = raw, corners = cs,
                     t_tl = ptl, t_tr = ptr, t_br = pbr, t_bl = pbl,
                     centre = c, front = f, angle = a\<rparr>))))))"

subsection \<open>class Robot and class SensorReading\<close>

text \<open>
  The fields \<^verbatim>\<open>range\<close>, \<^verbatim>\<open>bearing\<close>, \<^verbatim>\<open>orientation\<close> of a reading are \<open>sr_range\<close>,
  \<open>sr_bearing\<close>, \<open>sr_orientation\<close>; the fields \<^verbatim>\<open>tag\<close> and \<^verbatim>\<open>id\<close> of a robot are \<open>r_tag\<close>
  and \<open>r_id\<close>.
\<close>

record SensorReading =
  sr_range :: real
  sr_bearing :: real
  sr_orientation :: real

record Robot =
  r_tag :: Tag
  r_id :: int
  position :: "real Vector2D"
  orientation :: real
  sensor_range :: real
  neighbours :: "(int \<times> SensorReading) list"

definition Robot_init :: "Tag \<Rightarrow> real Vector2D \<Rightarrow> Robot" where
  "Robot_init tg pos =
     \<lparr>r_tag = tg, r_id = t_id tg, position = pos, orientation = angle tg,
      sensor_range = 3 / 10, neighbours = []\<rparr>"

subsection \<open>class Tracker\<close>

type_synonym robots = "(int \<times> Robot) list"

record Tracker =
  calibrated :: bool
  num_corner_tags :: int
  min_x :: int
  min_y :: int
  max_x :: int
  max_y :: int
  corner_distance_metres :: real
  corner_distance_pixels :: real
  scale_factor :: real
  robots :: robots

text \<open>\<^verbatim>\<open>Tracker.__init__\<close>, lines 62-75 (the camera is not part of the model).\<close>

definition Tracker_init :: Tracker where
  "Tracker_init =
     \<lparr>calibrated = False, num_corner_tags = 0, min_x = 0, min_y = 0, max_x = 0, max_y = 0,
      corner_distance_metres = 206 / 100, corner_distance_pixels = 0, scale_factor = 0,
      robots = []\<rparr>"

text \<open>Lines 109-112: the first corner tag is both the minimum and the maximum.\<close>

definition record_first_corner :: "Tracker \<Rightarrow> Tag \<Rightarrow> Tracker" where
  "record_first_corner s tg =
     s\<lparr>min_x := vx (centre tg), max_x := vx (centre tg),
       min_y := vy (centre tg), max_y := vy (centre tg)\<rparr>"

text \<open>Lines 115-122: four independent \<^verbatim>\<open>if\<close> statements widen the bounds.\<close>

definition widen_bounds :: "Tracker \<Rightarrow> Tag \<Rightarrow> Tracker" where
  "widen_bounds s tg =
     (let s1 = (if vx (centre tg) < min_x s then s\<lparr>min_x := vx (centre tg)\<rparr> else s);
          s2 = (if vx (centre tg) > max_x s1 then s1\<lparr>max_x := vx (centre tg)\<rparr> else s1);
          s3 = (if vy (centre tg) < min_y s2 then s2\<lparr>min_y := vy (centre tg)\<rparr> else s2);
          s4 = (if vy (centre tg) > max_y s3 then s3\<lparr>max_y := vy (centre tg)\<rparr> else s3)
      in s4)"

text \<open>
  Lines 124-126. The float division raises \<^verbatim>\<open>ZeroDivisionError\<close> when the divisor is
  zero; the assignment to \<^verbatim>\<open>corner_distance_pixels\<close> has happened by then, but the
  exception ends the thread, and the model returns the error alone.
\<close>

definition calibrate :: "Tracker \<Rightarrow> error + Tracker" where
  "calibrate s =
     (let s1 = s\<lparr>corner_distance_pixels :=
                   math_dist [real_of_int (min_x s), real_of_int (min_y s)]
                             [real_of_int (max_x s), real_of_int (max_y s)]\<rparr>
      in if corner_distance_metres s1 = 0 then Inl ZeroDivisionError
         else Inr (s1\<lparr>scale_factor := corner_distance_pixels s1 / corner_distance_metres s1,
                      calibrated := True\<rparr>))"

text \<open>Line 102: both coordinates of the tag centre are divided by the scale factor.\<close>

definition metric_position :: "Tracker \<Rightarrow> Tag \<Rightarrow> error + real Vector2D" where
  "metric_position s tg =
     (if scale_factor s = 0 then Inl ZeroDivisionError
      else Inr (Vector2D (real_of_int (vx (centre tg)) / scale_factor s)
                         (real_of_int (vy (centre tg)) / scale_factor s)))"

text \<open>The body of the loop over the detections, lines 98-128.\<close>

definition process_tag :: "Tracker \<Rightarrow> int \<times> raw_tag \<Rightarrow> error + Tracker" where
  "process_tag s d =
     (case Tag_init (fst d) (snd d) of Inl e \<Rightarrow> Inl e | Inr tg \<Rightarrow>
        if calibrated s then
          (if t_id tg \<noteq> 0 then
             (case metric_position s tg of Inl e \<Rightarrow> Inl e | Inr pos \<Rightarrow>
                Inr (s\<lparr>robots := AList.update (fst d) (Robot_init tg pos) (robots s)\<rparr>))
           else Inr s)
        else
          (if t_id tg = 0 then
             (case (if num_corner_tags s = 0 then Inr (record_first_corner s tg)
                    else calibrate (widen_bounds s tg)) of
                Inl e \<Rightarrow> Inl e
              | Inr s1 \<Rightarrow> Inr (s1\<lparr>num_corner_tags := num_corner_tags s1 + 1\<rparr>))
           else Inr s))"

text \<open>The loop of line 96; an exception ends it.\<close>

fun process_tags :: "Tracker \<Rightarrow> (int \<times> raw_tag) list \<Rightarrow> error + Tracker" where
  "process_tags s [] = Inr s"
| "process_tags s (d # ds) =
     (case process_tag s d of Inl e \<Rightarrow> Inl e | Inr s1 \<Rightarrow> process_tags s1 ds)"

text \<open>
  Lines 140-146 for one pair of keys: the robot stored under \<open>i\<close> gets a reading of the
  robot stored under \<open>other_id\<close>. Both are looked up in the dictionary as it is at that
  moment; \<^verbatim>\<open>robot.neighbours[other_id] = ...\<close> mutates the object stored under \<open>i\<close>,
  which is an update of that entry in place. The iteration only produces keys of the
  dictionary, so the last case is never taken.
\<close>

definition sense_pair :: "int \<times> int \<Rightarrow> robots \<Rightarrow> robots" where
  "sense_pair p rs =
     (case (map_of rs (fst p), map_of rs (snd p)) of
        (Some robot, Some other_robot) \<Rightarrow>
          if fst p \<noteq> snd p then
            (let rng = math_dist [vx (position robot), vy (position robot)]
                                 [vx (position other_robot), vy (position other_robot)]
             in if rng < sensor_range robot then
                  (let bearing = degrees (atan2 (vy (position other_robot) - vy (position robot))
                                                (vx (position other_robot) - vx (position robot)))
                   in AList.update (fst p)
                        (robot\<lparr>neighbours :=
                           AList.update (snd p)
                             \<lparr>sr_range = rng, sr_bearing = bearing,
                              sr_orientation = orientation other_robot\<rparr>
                             (neighbours robot)\<rparr>) rs)
                else rs)
          else rs
      | _ \<Rightarrow> rs)"

text \<open>
  The nested iteration over \<^verbatim>\<open>self.robots.items()\<close>, lines 136-146: all ordered pairs of
  keys, the outer key varying slowest.
\<close>

definition key_pairs :: "robots \<Rightarrow> (int \<times> int) list" where
  "key_pairs rs = List.product (map fst rs) (map fst rs)"

definition neighbour_pass :: "robots \<Rightarrow> robots" where
  "neighbour_pass rs = fold sense_pair (key_pairs rs) rs"

text \<open>
  One camera frame as \<^verbatim>\<open>detectMarkers\<close> returns it: \<^verbatim>\<open>tag_ids\<close> is \<^verbatim>\<open>None\<close> or an array
  with one row per marker, \<^verbatim>\<open>raw_tags\<close> the corner arrays.
\<close>

record Frame =
  tag_ids :: "int list list option"
  raw_tags :: "raw_tag list"

text \<open>Lines 92-96: \<^verbatim>\<open>zip(list(itertools.chain(*tag_ids)), raw_tags)\<close>.\<close>

definition detections :: "int list list \<Rightarrow> raw_tag list \<Rightarrow> (int \<times> raw_tag) list" where
  "detections ids raws = zip (concat ids) raws"

text \<open>One iteration of \<^verbatim>\<open>while True\<close>, lines 79-146.\<close>

definition run_cycle :: "Tracker \<Rightarrow> Frame \<Rightarrow> error + Tracker" where
  "run_cycle s f =
     (let s0 = s\<lparr>robots := []\<rparr>
      in case tag_ids f of
           None \<Rightarrow> Inr s0
         | Some ids \<Rightarrow>
             if length ids > 0 then
               (case process_tags s0 (detections ids (raw_tags f)) of
                  Inl e \<Rightarrow> Inl e
                | Inr s1 \<Rightarrow>
                    if calibrated s1 then Inr (s1\<lparr>robots := neighbour_pass (robots s1)\<rparr>)
                    else Inr s1)
             else Inr s0)"

text \<open>\<^verbatim>\<open>Tracker.run\<close> over the frames the camera delivers; an exception ends the thread.\<close>

fun run :: "Tracker \<Rightarrow> Frame list \<Rightarrow> error + Tracker" where
  "run s [] = Inr s"
| "run s (f # fs) = (case run_cycle s f of Inl e \<Rightarrow> Inl e | Inr s1 \<Rightarrow> run s1 fs)"

subsection \<open>The tag geometry as the specification words it\<close>

text \<open>
  These three definitions follow the specification, not the code, and exist to be
  compared with \<open>Tag_init\<close>: the centre as the mean of the 4 corner points, the front as
  the midpoint of the top edge (corners 0 and 1), the heading as the angle in degrees
  of the vector from centre to front.
\<close>

definition spec_centre :: "real list list \<Rightarrow> real Vector2D" where
  "spec_centre cs =
     Vector2D (sum_list (map (\<lambda>c. c ! 0) cs) / 4) (sum_list (map (\<lambda>c. c ! 1) cs) / 4)"

definition spec_front :: "real list list \<Rightarrow> real Vector2D" where
  "spec_front cs = Vector2D ((cs ! 0 ! 0 + cs ! 1 ! 0) / 2) ((cs ! 0 ! 1 + cs ! 1 ! 1) / 2)"

definition spec_heading :: "real list list \<Rightarrow> real" where
  "spec_heading cs =
     degrees (atan2 (vy (spec_front cs) - vy (spec_centre cs))
                    (vx (spec_front cs) - vx (spec_centre cs)))"

subsection \<open>Concrete inputs used below\<close>

text \<open>A marker whose corners are the unit square, top left corner first.\<close>

definition unit_square :: raw_tag where
  "unit_square = [[[0, 0], [1, 0], [1, 1], [0, 1]]]"

text \<open>
  A marker whose integer centre is \<open>(1030, 0)\<close>: with the unit square, whose centre is
  \<open>(0, 0)\<close>, these are the two corner tags of the specification's end-to-end scenario.
\<close>

definition far_square :: raw_tag where
  "far_square = [[[1030, 0], [1031, 0], [1031, 1], [1030, 1]]]"

subsection \<open>Views of a run used to state properties\<close>

text \<open>The detections the loop of line 96 visits in one frame (none when line 90 fails).\<close>

definition frame_detections :: "Frame \<Rightarrow> (int \<times> raw_tag) list" where
  "frame_detections f =
     (case tag_ids f of None \<Rightarrow> []
      | Some ids \<Rightarrow> if length ids > 0 then detections ids (raw_tags f) else [])"

text \<open>The sightings of the reserved corner id 0 over a sequence of frames, in order.\<close>

definition corner_sightings :: "Frame list \<Rightarrow> (int \<times> raw_tag) list" where
  "corner_sightings fs = filter (\<lambda>d. fst d = 0) (concat (map frame_detections fs))"

text \<open>
  The calibration state of the specification: every field of the tracker but the
  robot dictionary.
\<close>

definition calibration_state :: "Tracker \<Rightarrow> Tracker" where
  "calibration_state s = s\<lparr>robots := []\<rparr>"

text \<open>The same view of the outcome of a run: the exception, or the calibration state reached.\<close>

definition calibration_result :: "error + Tracker \<Rightarrow> error + Tracker" where
  "calibration_result r = (case r of Inl e \<Rightarrow> Inl e | Inr s \<Rightarrow> Inr (calibration_state s))"

text \<open>Two frames that each show one corner tag, and the tracker states they lead to.\<close>

definition first_corner_frame :: Frame where
  "first_corner_frame = \<lparr>tag_ids = Some [[0]], raw_tags = [unit_square]\<rparr>"

definition second_corner_frame :: Frame where
  "second_corner_frame = \<lparr>tag_ids = Some [[0]], raw_tags = [far_square]\<rparr>"

text \<open>After the corner tags at \<open>(0, 0)\<close> and \<open>(1030, 0)\<close>: 500 pixels per metre.\<close>

definition arena :: Tracker where
  "arena =
     \<lparr>calibrated = True, num_corner_tags = 2, min_x = 0, min_y = 0, max_x = 1030, max_y = 0,
      corner_distance_metres = 206 / 100, corner_distance_pixels = 1030, scale_factor = 500,
      robots = []\<rparr>"

text \<open>After the corner tag at \<open>(0, 0)\<close> has been sighted in two frames.\<close>

definition flat_arena :: Tracker where
  "flat_arena =
     \<lparr>calibrated = True, num_corner_tags = 2, min_x = 0, min_y = 0, max_x = 0, max_y = 0,
      corner_distance_metres = 206 / 100, corner_distance_pixels = 0, scale_factor = 0,
      robots = []\<rparr>"

text \<open>A detection with only three corners, and frames that show robot tags.\<close>

definition short_tag :: raw_tag where
  "short_tag = [[[0, 0], [1, 0], [1, 1]]]"

definition robot_frame :: Frame where
  "robot_frame = \<lparr>tag_ids = Some [[7]], raw_tags = [unit_square]\<rparr>"

definition mixed_frame :: Frame where
  "mixed_frame = \<lparr>tag_ids = Some [[5], [7]], raw_tags = [short_tag, unit_square]\<rparr>"

text \<open>The robot that the unit square with id 7 becomes in \<open>arena\<close>.\<close>

definition robot7 :: Robot where
  "robot7 =
     \<lparr>r_tag = \<lparr>t_id = 7, raw_tag = unit_square, corners = [[0, 0], [1, 0], [1, 1], [0, 1]],
               t_tl = Vector2D 0 0, t_tr = Vector2D 1 0, t_br = Vector2D 1 1,
               t_bl = Vector2D 0 1, centre = Vector2D 0 0, front = Vector2D 0 0, angle = 0\<rparr>,
      r_id = 7, position = Vector2D 0 0, orientation = 0, sensor_range = 3 / 10,
      neighbours = []\<rparr>"

subsection \<open>Views of the neighbour relation used to state properties\<close>

text \<open>
  What lines 142-146 compute from two robots: the test of line 144 and the reading of
  line 146. \<open>sense_pair\<close> above is the code; these two name its ingredients.
\<close>

definition in_range :: "Robot \<Rightarrow> Robot \<Rightarrow> bool" where
  "in_range a b \<longleftrightarrow>
     math_dist [vx (position a), vy (position a)] [vx (position b), vy (position b)]
       < sensor_range a"

definition reading_of :: "Robot \<Rightarrow> Robot \<Rightarrow> SensorReading" where
  "reading_of a b =
     \<lparr>sr_range = math_dist [vx (position a), vy (position a)] [vx (position b), vy (position b)],
      sr_bearing = degrees (atan2 (vy (position b) - vy (position a))
                                  (vx (position b) - vx (position a))),
      sr_orientation = orientation b\<rparr>"

text \<open>A robot without its neighbour dictionary: the part the neighbour loop only reads.\<close>

definition static_part :: "Robot \<Rightarrow> Robot" where
  "static_part r = r\<lparr>neighbours := []\<rparr>"

text \<open>
  Every reading stored in a robot dictionary is about another robot of the same
  dictionary, in range, and is the reading of line 146.
\<close>

definition readings_sound :: "robots \<Rightarrow> bool" where
  "readings_sound rs \<longleftrightarrow>
     (\<forall>a ra b rd. map_of rs a = Some ra \<longrightarrow> map_of (neighbours ra) b = Some rd \<longrightarrow>
        a \<noteq> b \<and> (\<exists>rb. map_of rs b = Some rb \<and> in_range ra rb \<and> rd = reading_of ra rb))"

text \<open>Every robot is stored under its own id.\<close>

definition keyed_by_id :: "robots \<Rightarrow> bool" where
  "keyed_by_id rs \<longleftrightarrow> distinct (map fst rs) \<and> (\<forall>(k, r) \<in> set rs. r_id r = k)"

text \<open>The robot dictionary as a cycle leaves it after the loop of line 96: no readings yet.\<close>

definition fresh :: "robots \<Rightarrow> bool" where
  "fresh rs \<longleftrightarrow> keyed_by_id rs \<and> (\<forall>(k, r) \<in> set rs. neighbours r = [])"

text \<open>No robot has a reading of itself.\<close>

definition no_self_neighbour :: "robots \<Rightarrow> bool" where
  "no_self_neighbour rs \<longleftrightarrow> (\<forall>(k, r) \<in> set rs. r_id r = k \<and> r_id r \<notin> fst ` set (neighbours r))"

subsection \<open>What a reader of \<^verbatim>\<open>tracker.robots\<close> can observe during a cycle\<close>

text \<open>
  The handler runs in the event loop of the main thread, \<^verbatim>\<open>Tracker.run\<close> in a thread of its
  own, and nothing synchronises them. A read of \<^verbatim>\<open>tracker.robots\<close> therefore sees the
  dictionary as it is after any of the statements of the cycle that write it: the
  assignment of line 87, each iteration of the loop of line 96, and each iteration of
  the inner loop of line 138. The model takes each of these statements as one step
  and lists the states between them, in order.
\<close>

fun tag_states :: "Tracker \<Rightarrow> (int \<times> raw_tag) list \<Rightarrow> Tracker list" where
  "tag_states s [] = []"
| "tag_states s (d # ds) =
     (case process_tag s d of Inl e \<Rightarrow> [] | Inr s1 \<Rightarrow> s1 # tag_states s1 ds)"

fun pair_states :: "robots \<Rightarrow> (int \<times> int) list \<Rightarrow> robots list" where
  "pair_states rs [] = []"
| "pair_states rs (p # ps) = sense_pair p rs # pair_states (sense_pair p rs) ps"

definition cycle_states :: "Tracker \<Rightarrow> Frame \<Rightarrow> Tracker list" where
  "cycle_states s f =
     (let s0 = s\<lparr>robots := []\<rparr>
      in s0 #
         (case tag_ids f of
            None \<Rightarrow> []
          | Some ids \<Rightarrow>
              if length ids > 0 then
                tag_states s0 (detections ids (raw_tags f)) @
                (case process_tags s0 (detections ids (raw_tags f)) of
                   Inl e \<Rightarrow> []
                 | Inr s1 \<Rightarrow>
                     if calibrated s1
                     then map (\<lambda>rs. s1\<lparr>robots := rs\<rparr>)
                              (pair_states (robots s1) (key_pairs (robots s1)))
                     else [])
              else []))"

text \<open>
  A second robot tag, with integer centre \<open>(100, 0)\<close>: in \<open>arena\<close> that is 0.2 metres from
  the unit square. The frame shows both robots; \<open>robot7_sees_8\<close> and \<open>robot8_sees_7\<close> are
  the two robots once each has its reading of the other.
\<close>

definition near_square :: raw_tag where
  "near_square = [[[100, 0], [101, 0], [101, 1], [100, 1]]]"

definition pair_frame :: Frame where
  "pair_frame = \<lparr>tag_ids = Some [[7], [8]], raw_tags = [unit_square, near_square]\<rparr>"

definition robot8 :: Robot where
  "robot8 =
     \<lparr>r_tag = \<lparr>t_id = 8, raw_tag = near_square,
               corners = [[100, 0], [101, 0], [101, 1], [100, 1]],
               t_tl = Vector2D 100 0, t_tr = Vector2D 101 0, t_br = Vector2D 101 1,
               t_bl = Vector2D 100 1, centre = Vector2D 100 0, front = Vector2D 100 0,
               angle = 0\<rparr>,
      r_id = 8, position = Vector2D (1 / 5) 0, orientation = 0, sensor_range = 3 / 10,
      neighbours = []\<rparr>"

definition robot7_sees_8 :: Robot where
  "robot7_sees_8 =
     robot7\<lparr>neighbours := [(8, \<lparr>sr_range = 1 / 5, sr_bearing = 0, sr_orientation = 0\<rparr>)]\<rparr>"

definition robot8_sees_7 :: Robot where
  "robot8_sees_7 =
     robot8\<lparr>neighbours := [(7, \<lparr>sr_range = 1 / 5, sr_bearing = 180, sr_orientation = 0\<rparr>)]\<rparr>"

text \<open>Every robot of a dictionary was constructed from one of the given detections.\<close>

definition built_from :: "(int \<times> raw_tag) list \<Rightarrow> robots \<Rightarrow> bool" where
  "built_from ds rs \<longleftrightarrow>
     (\<forall>(k, r) \<in> set rs. \<exists>raw. (k, raw) \<in> set ds \<and> Tag_init k raw = Inr (r_tag r))"


section \<open>The protocol handler (lines 204-250)\<close>

subsection \<open>JSON values and Python values\<close>








subsection \<open>One request\<close>







subsection \<open>One connection\<close>



subsection \<open>Concrete requests\<close>



section \<open>The tracker with its floating-point operations left open\<close>

text \<open>
  The definitions above compute on real numbers, which is exact where Python rounds.
  For the calibration and for the structure of the robot dictionary this changes
  nothing, but the neighbour test of line 144 is a strict comparison of a rounded
  distance with the rounded constant \<^verbatim>\<open>0.3\<close>, and at the boundary rounding decides it.
  This section therefore repeats the cycle with every floating-point operation as a
  parameter. A float is still the real number it denotes (infinities and NaN do not
  arise from pixel coordinates), so comparing two floats is comparing two reals; but
  what a conversion, a literal, a division, a subtraction, \<^verbatim>\<open>math.dist\<close>, \<^verbatim>\<open>math.atan2\<close> and
  \<^verbatim>\<open>math.degrees\<close> return is whatever the parameter \<open>fl\<close> says. Python's double arithmetic
  is one such \<open>fl\<close>, exact arithmetic (\<open>exact_ops\<close>) is another, and with \<open>exact_ops\<close> the
  definitions of this section are the definitions above.
\<close>

record float_ops =
  fl_of_int :: "int \<Rightarrow> real"
  fl_lit :: "real \<Rightarrow> real"
  fl_div :: "real \<Rightarrow> real \<Rightarrow> real"
  fl_sub :: "real \<Rightarrow> real \<Rightarrow> real"
  fl_dist :: "real list \<Rightarrow> real list \<Rightarrow> real"
  fl_atan2 :: "real \<Rightarrow> real \<Rightarrow> real"
  fl_degrees :: "real \<Rightarrow> real"

definition exact_ops :: float_ops where
  "exact_ops =
     \<lparr>fl_of_int = real_of_int, fl_lit = (\<lambda>x. x), fl_div = (\<lambda>x y. x / y),
      fl_sub = (\<lambda>x y. x - y), fl_dist = math_dist, fl_atan2 = atan2, fl_degrees = degrees\<rparr>"

text \<open>\<^verbatim>\<open>Tag.__init__\<close>, lines 23-43.\<close>

definition Tag_init_fl :: "float_ops \<Rightarrow> int \<Rightarrow> raw_tag \<Rightarrow> error + Tag" where
  "Tag_init_fl fl i raw =
     (case getitem raw 0 of Inl e \<Rightarrow> Inl e | Inr cs \<Rightarrow>
      (case corner_point cs 0 of Inl e \<Rightarrow> Inl e | Inr ptl \<Rightarrow>
       (case corner_point cs 1 of Inl e \<Rightarrow> Inl e | Inr ptr \<Rightarrow>
        (case corner_point cs 2 of Inl e \<Rightarrow> Inl e | Inr pbr \<Rightarrow>
         (case corner_point cs 3 of Inl e \<Rightarrow> Inl e | Inr pbl \<Rightarrow>
            (let c = Vector2D
                       (py_int (fl_div fl (fl_of_int fl (vx ptl + vx ptr + vx pbr + vx pbl))
                                          (fl_of_int fl 4)))
                       (py_int (fl_div fl (fl_of_int fl (vy ptl + vy ptr + vy pbr + vy pbl))
                                          (fl_of_int fl 4)));
                 f = Vector2D
                       (py_int (fl_div fl (fl_of_int fl (vx ptl + vx ptr)) (fl_of_int fl 2)))
                       (py_int (fl_div fl (fl_of_int fl (vy ptl + vy ptr)) (fl_of_int fl 2)));
                 a = fl_degrees fl (fl_atan2 fl (fl_of_int fl (vy f - vy c))
                                                (fl_of_int fl (vx f - vx c)))
             in Inr \<lparr>t_id = i, raw_tag = raw, corners = cs,
                     t_tl = ptl, t_tr = ptr, t_br = pbr, t_bl = pbl,
                     centre = c, front = f, angle = a\<rparr>))))))"

text \<open>\<^verbatim>\<open>Robot.__init__\<close>, lines 46-52: the sensor range is the literal \<^verbatim>\<open>0.3\<close>.\<close>

definition Robot_init_fl :: "float_ops \<Rightarrow> Tag \<Rightarrow> real Vector2D \<Rightarrow> Robot" where
  "Robot_init_fl fl tg pos =
     \<lparr>r_tag = tg, r_id = t_id tg, position = pos, orientation = angle tg,
      sensor_range = fl_lit fl (3 / 10), neighbours = []\<rparr>"

text \<open>Lines 124-126.\<close>

definition calibrate_fl :: "float_ops \<Rightarrow> Tracker \<Rightarrow> error + Tracker" where
  "calibrate_fl fl s =
     (let s1 = s\<lparr>corner_distance_pixels :=
                   fl_dist fl [fl_of_int fl (min_x s), fl_of_int fl (min_y s)]
                              [fl_of_int fl (max_x s), fl_of_int fl (max_y s)]\<rparr>
      in if corner_distance_metres s1 = 0 then Inl ZeroDivisionError
         else Inr (s1\<lparr>scale_factor :=
                        fl_div fl (corner_distance_pixels s1) (corner_distance_metres s1),
                      calibrated := True\<rparr>))"

text \<open>Line 102.\<close>

definition metric_position_fl :: "float_ops \<Rightarrow> Tracker \<Rightarrow> Tag \<Rightarrow> error + real Vector2D" where
  "metric_position_fl fl s tg =
     (if scale_factor s = 0 then Inl ZeroDivisionError
      else Inr (Vector2D (fl_div fl (fl_of_int fl (vx (centre tg))) (scale_factor s))
                         (fl_div fl (fl_of_int fl (vy (centre tg))) (scale_factor s))))"

text \<open>The body of the loop over the detections, lines 98-128.\<close>

definition process_tag_fl :: "float_ops \<Rightarrow> Tracker \<Rightarrow> int \<times> raw_tag \<Rightarrow> error + Tracker" where
  "process_tag_fl fl s d =
     (case Tag_init_fl fl (fst d) (snd d) of Inl e \<Rightarrow> Inl e | Inr tg \<Rightarrow>
        if calibrated s then
          (if t_id tg \<noteq> 0 then
             (case metric_position_fl fl s tg of Inl e \<Rightarrow> Inl e | Inr pos \<Rightarrow>
                Inr (s\<lparr>robots := AList.update (fst d) (Robot_init_fl fl tg pos) (robots s)\<rparr>))
           else Inr s)
        else
          (if t_id tg = 0 then
             (case (if num_corner_tags s = 0 then Inr (record_first_corner s tg)
                    else calibrate_fl fl (widen_bounds s tg)) of
                Inl e \<Rightarrow> Inl e
              | Inr s1 \<Rightarrow> Inr (s1\<lparr>num_corner_tags := num_corner_tags s1 + 1\<rparr>))
           else Inr s))"

fun process_tags_fl :: "float_ops \<Rightarrow> Tracker \<Rightarrow> (int \<times> raw_tag) list \<Rightarrow> error + Tracker" where
  "process_tags_fl fl s [] = Inr s"
| "process_tags_fl fl s (d # ds) =
     (case process_tag_fl fl s d of Inl e \<Rightarrow> Inl e | Inr s1 \<Rightarrow> process_tags_fl fl s1 ds)"

text \<open>Lines 140-146 for one pair of keys.\<close>

definition sense_pair_fl :: "float_ops \<Rightarrow> int \<times> int \<Rightarrow> robots \<Rightarrow> robots" where
  "sense_pair_fl fl p rs =
     (case (map_of rs (fst p), map_of rs (snd p)) of
        (Some robot, Some other_robot) \<Rightarrow>
          if fst p \<noteq> snd p then
            (let rng = fl_dist fl [vx (position robot), vy (position robot)]
                                  [vx (position other_robot), vy (position other_robot)]
             in if rng < sensor_range robot then
                  (let bearing =
                         fl_degrees fl
                           (fl_atan2 fl
                              (fl_sub fl (vy (position other_robot)) (vy (position robot)))
                              (fl_sub fl (vx (position other_robot)) (vx (position robot))))
                   in AList.update (fst p)
                        (robot\<lparr>neighbours :=
                           AList.update (snd p)
                             \<lparr>sr_range = rng, sr_bearing = bearing,
                              sr_orientation = orientation other_robot\<rparr>
                             (neighbours robot)\<rparr>) rs)
                else rs)
          else rs
      | _ \<Rightarrow> rs)"

definition neighbour_pass_fl :: "float_ops \<Rightarrow> robots \<Rightarrow> robots" where
  "neighbour_pass_fl fl rs = fold (sense_pair_fl fl) (key_pairs rs) rs"

text \<open>One iteration of \<^verbatim>\<open>while True\<close>, lines 79-146.\<close>

definition run_cycle_fl :: "float_ops \<Rightarrow> Tracker \<Rightarrow> Frame \<Rightarrow> error + Tracker" where
  "run_cycle_fl fl s f =
     (let s0 = s\<lparr>robots := []\<rparr>
      in case tag_ids f of
           None \<Rightarrow> Inr s0
         | Some ids \<Rightarrow>
             if length ids > 0 then
               (case process_tags_fl fl s0 (detections ids (raw_tags f)) of
                  Inl e \<Rightarrow> Inl e
                | Inr s1 \<Rightarrow>
                    if calibrated s1 then Inr (s1\<lparr>robots := neighbour_pass_fl fl (robots s1)\<rparr>)
                    else Inr s1)
             else Inr s0)"

subsection \<open>Views used to state the neighbour relation\<close>

text \<open>The test of line 144 and the reading of line 146, from two robots.\<close>

definition in_range_fl :: "float_ops \<Rightarrow> Robot \<Rightarrow> Robot \<Rightarrow> bool" where
  "in_range_fl fl a b \<longleftrightarrow>
     fl_dist fl [vx (position a), vy (position a)] [vx (position b), vy (position b)]
       < sensor_range a"

definition reading_of_fl :: "float_ops \<Rightarrow> Robot \<Rightarrow> Robot \<Rightarrow> SensorReading" where
  "reading_of_fl fl a b =
     \<lparr>sr_range = fl_dist fl [vx (position a), vy (position a)]
                             [vx (position b), vy (position b)],
      sr_bearing = fl_degrees fl (fl_atan2 fl (fl_sub fl (vy (position b)) (vy (position a)))
                                              (fl_sub fl (vx (position b)) (vx (position a)))),
      sr_orientation = orientation b\<rparr>"

definition readings_sound_fl :: "float_ops \<Rightarrow> robots \<Rightarrow> bool" where
  "readings_sound_fl fl rs \<longleftrightarrow>
     (\<forall>a ra b rd. map_of rs a = Some ra \<longrightarrow> map_of (neighbours ra) b = Some rd \<longrightarrow>
        a \<noteq> b \<and> (\<exists>rb. map_of rs b = Some rb \<and> in_range_fl fl ra rb
                        \<and> rd = reading_of_fl fl ra rb))"

text \<open>
  Every robot of a dictionary is stored under its id and is what lines 98-103 make of
  one of the given detections at the scale factor \<open>sf\<close>: its tag is the tag of that
  detection, its position the tag centre divided by \<open>sf\<close>, its orientation the heading
  of the tag, its sensor range the literal \<^verbatim>\<open>0.3\<close>.
\<close>

definition made_from :: "float_ops \<Rightarrow> real \<Rightarrow> (int \<times> raw_tag) list \<Rightarrow> robots \<Rightarrow> bool" where
  "made_from fl sf ds rs \<longleftrightarrow>
     distinct (map fst rs) \<and>
     (\<forall>(k, r) \<in> set rs.
        k \<noteq> 0 \<and> r_id r = k
      \<and> (\<exists>raw. (k, raw) \<in> set ds \<and> Tag_init_fl fl k raw = Inr (r_tag r))
      \<and> position r = Vector2D (fl_div fl (fl_of_int fl (vx (centre (r_tag r)))) sf)
                              (fl_div fl (fl_of_int fl (vy (centre (r_tag r)))) sf)
      \<and> orientation r = angle (r_tag r)
      \<and> sensor_range r = fl_lit fl (3 / 10))"

text \<open>
  A marker whose top edge is on its left: integer centre \<open>(100, 0)\<close>, integer front
  \<open>(99, 0)\<close>, heading 180 degrees. The frame shows it next to the unit square, whose
  heading is 0; \<open>robot8_turned\<close> is the robot it becomes in \<open>arena\<close>.
\<close>

definition turned_tag :: raw_tag where
  "turned_tag = [[[99, 0], [99, 1], [101, 1], [101, 0]]]"

definition turned_frame :: Frame where
  "turned_frame = \<lparr>tag_ids = Some [[7], [8]], raw_tags = [unit_square, turned_tag]\<rparr>"

definition robot8_turned :: Robot where
  "robot8_turned =
     \<lparr>r_tag = \<lparr>t_id = 8, raw_tag = turned_tag,
               corners = [[99, 0], [99, 1], [101, 1], [101, 0]],
               t_tl = Vector2D 99 0, t_tr = Vector2D 99 1, t_br = Vector2D 101 1,
               t_bl = Vector2D 101 0, centre = Vector2D 100 0, front = Vector2D 99 0,
               angle = 180\<rparr>,
      r_id = 8, position = Vector2D (1 / 5) 0, orientation = 180, sensor_range = 3 / 10,
      neighbours = []\<rparr>"

text \<open>The two robots of \<open>turned_frame\<close> once each has its reading of the other.\<close>

definition robot7_sees_turned :: Robot where
  "robot7_sees_turned =
     robot7\<lparr>neighbours := [(8, \<lparr>sr_range = 1 / 5, sr_bearing = 0, sr_orientation = 180\<rparr>)]\<rparr>"

definition robot8_turned_sees_7 :: Robot where
  "robot8_turned_sees_7 =
     robot8_turned\<lparr>neighbours := [(7, \<lparr>sr_range = 1 / 5, sr_bearing = 180, sr_orientation = 0\<rparr>)]\<rparr>"

text \<open>
  A frame at the boundary of the sensor range: two robot tags with the integer centres
  \<open>(85, 0)\<close> and \<open>(235, 0)\<close>, which at 500 pixels per metre are exactly 0.3 metres apart.
  \<open>doubles_ops\<close> returns what IEEE double arithmetic returns for the operations this
  frame needs (the doubles nearest to 0.3, 0.17 and 0.47, and the distance and the
  differences computed from them) and is exact elsewhere.
\<close>

definition boundary_frame :: Frame where
  "boundary_frame =
     \<lparr>tag_ids = Some [[7], [8]],
      raw_tags = [[[[85, 0], [86, 0], [86, 1], [85, 1]]],
                  [[[235, 0], [236, 0], [236, 1], [235, 1]]]]\<rparr>"

definition doubles_ops :: float_ops where
  "doubles_ops =
     exact_ops
       \<lparr>fl_lit := (\<lambda>x. if x = 3 / 10 then 5404319552844595 / 18014398509481984 else x),
        fl_div := (\<lambda>x y.
          if x = 85 \<and> y = 500 then 6124895493223875 / 36028797018963968
          else if x = 235 \<and> y = 500 then 2116691824864133 / 4503599627370496
          else x / y),
        fl_sub := (\<lambda>x y.
          if x = 2116691824864133 / 4503599627370496 \<and> y = 6124895493223875 / 36028797018963968
          then 2702159776422297 / 9007199254740992
          else if x = 6124895493223875 / 36028797018963968 \<and> y = 2116691824864133 / 4503599627370496
          then - (2702159776422297 / 9007199254740992)
          else x - y),
        fl_dist := (\<lambda>p q.
          if (p = [6124895493223875 / 36028797018963968, 0]
                \<and> q = [2116691824864133 / 4503599627370496, 0])
             \<or> (p = [2116691824864133 / 4503599627370496, 0]
                \<and> q = [6124895493223875 / 36028797018963968, 0])
          then 2702159776422297 / 9007199254740992
          else math_dist p q)\<rparr>"

text \<open>Which robot has readings of which, in dictionary order.\<close>

definition neighbour_keys :: "robots \<Rightarrow> (int \<times> int list) list" where
  "neighbour_keys rs = map (\<lambda>(k, r). (k, map fst (neighbours r))) rs"


section \<open>Properties\<close>

subsection \<open>Library functions\<close>

lemma getitem_simps:
  "getitem (x # xs) 0 = Inr x"
  "getitem (x # xs) (Suc n) = getitem xs n"
  "getitem [] n = Inl IndexError"
  by (simp_all add: getitem_def)

lemma py_int_bound: "\<bar>real_of_int (py_int r) - r\<bar> < 1"
  unfolding py_int_def by (simp; linarith)

lemma py_int_of_int [simp]: "py_int (real_of_int k) = k"
  by (simp add: py_int_def)

subsection \<open>Tag construction\<close>

lemma corner_point_ok:
  "i < length cs \<Longrightarrow> cs ! i = [a, b] \<Longrightarrow> corner_point cs i = Inr (Vector2D (py_int a) (py_int b))"
  by (simp add: corner_point_def getitem_def)

lemma Tag_init_unit_square:
  "Tag_init i unit_square =
     Inr \<lparr>t_id = i, raw_tag = unit_square, corners = [[0, 0], [1, 0], [1, 1], [0, 1]],
          t_tl = Vector2D 0 0, t_tr = Vector2D 1 0, t_br = Vector2D 1 1, t_bl = Vector2D 0 1,
          centre = Vector2D 0 0, front = Vector2D 0 0, angle = 0\<rparr>"
  by (simp add: Tag_init_def unit_square_def corner_point_def getitem_simps py_int_def
      eval_nat_numeral atan2_def degrees_def Let_def)

lemma spec_geometry_unit_square:
  "spec_centre [[0, 0], [1, 0], [1, 1], [0, 1]] = Vector2D (1 / 2) (1 / 2)"
  "spec_front [[0, 0], [1, 0], [1, 1], [0, 1]] = Vector2D (1 / 2) 0"
  "spec_heading [[0, 0], [1, 0], [1, 1], [0, 1]] = - 90"
  by (simp_all add: spec_centre_def spec_front_def spec_heading_def atan2_def degrees_def)

text \<open>
  Claim C9, as stated, fails. For the unit square the code truncates: the centre is
  \<open>(int(2/4), int(2/4)) = (0, 0)\<close> and not the mean \<open>(1/2, 1/2)\<close>, the front is
  \<open>(int(1/2), 0) = (0, 0)\<close> and not the midpoint \<open>(1/2, 0)\<close>, and the heading, computed
  from these two equal points, is \<open>0\<close> and not \<open>-90\<close> degrees.
\<close>

theorem tag_geometry_is_not_exact:
  "\<not> isl (Tag_init 7 unit_square) \<and>
   map_Vector2D real_of_int (centre (projr (Tag_init 7 unit_square))) \<noteq> spec_centre (hd unit_square) \<and>
   map_Vector2D real_of_int (front (projr (Tag_init 7 unit_square))) \<noteq> spec_front (hd unit_square) \<and>
   angle (projr (Tag_init 7 unit_square)) \<noteq> spec_heading (hd unit_square)"
  by (simp add: Tag_init_unit_square) (simp add: unit_square_def spec_geometry_unit_square)

text \<open>
  Claim C9, amended. A tag built from 4 corner points always exists; its corners are the
  given ones with each coordinate truncated towards zero to an integer; its centre is
  the mean of these integer corners, truncated towards zero again (so less than one
  pixel away from that mean in each coordinate); its front is the truncated midpoint of
  the integer top-left and top-right corners; its heading is the angle in degrees of
  the vector from that integer centre to that integer front.
\<close>

theorem Tag_init_truncates:
  "\<exists>t. Tag_init i [[[x0, y0], [x1, y1], [x2, y2], [x3, y3]]] = Inr t
     \<and> t_tl t = Vector2D (py_int x0) (py_int y0) \<and> t_tr t = Vector2D (py_int x1) (py_int y1)
     \<and> t_br t = Vector2D (py_int x2) (py_int y2) \<and> t_bl t = Vector2D (py_int x3) (py_int y3)
     \<and> centre t = Vector2D (py_int (real_of_int (py_int x0 + py_int x1 + py_int x2 + py_int x3) / 4))
                            (py_int (real_of_int (py_int y0 + py_int y1 + py_int y2 + py_int y3) / 4))
     \<and> \<bar>real_of_int (vx (centre t)) - real_of_int (py_int x0 + py_int x1 + py_int x2 + py_int x3) / 4\<bar> < 1
     \<and> \<bar>real_of_int (vy (centre t)) - real_of_int (py_int y0 + py_int y1 + py_int y2 + py_int y3) / 4\<bar> < 1
     \<and> front t = Vector2D (py_int (real_of_int (py_int x0 + py_int x1) / 2))
                           (py_int (real_of_int (py_int y0 + py_int y1) / 2))
     \<and> angle t = degrees (atan2 (real_of_int (vy (front t) - vy (centre t)))
                                 (real_of_int (vx (front t) - vx (centre t))))"
proof -
  let ?cs = "[[x0, y0], [x1, y1], [x2, y2], [x3, y3]]"
  have c: "corner_point ?cs 0 = Inr (Vector2D (py_int x0) (py_int y0))"
          "corner_point ?cs 1 = Inr (Vector2D (py_int x1) (py_int y1))"
          "corner_point ?cs 2 = Inr (Vector2D (py_int x2) (py_int y2))"
          "corner_point ?cs 3 = Inr (Vector2D (py_int x3) (py_int y3))"
    by (simp_all add: corner_point_ok)
  show ?thesis
    unfolding Tag_init_def
    using py_int_bound [of "real_of_int (py_int x0 + py_int x1 + py_int x2 + py_int x3) / 4"]
          py_int_bound [of "real_of_int (py_int y0 + py_int y1 + py_int y2 + py_int y3) / 4"]
    by (simp add: getitem_simps c Let_def del: One_nat_def)
qed

subsection \<open>The calibration state machine\<close>

lemma Tag_init_id: "Tag_init i raw = Inr t \<Longrightarrow> t_id t = i"
  by (auto simp: Tag_init_def Let_def split: sum.splits)

lemma calibration_state_robots [simp]: "calibration_state (s\<lparr>robots := r\<rparr>) = calibration_state s"
  by (simp add: calibration_state_def)

lemma calibration_state_fields:
  "calibrated (calibration_state s) = calibrated s"
  "num_corner_tags (calibration_state s) = num_corner_tags s"
  "min_x (calibration_state s) = min_x s" "min_y (calibration_state s) = min_y s"
  "max_x (calibration_state s) = max_x s" "max_y (calibration_state s) = max_y s"
  "corner_distance_metres (calibration_state s) = corner_distance_metres s"
  "corner_distance_pixels (calibration_state s) = corner_distance_pixels s"
  "scale_factor (calibration_state s) = scale_factor s"
  by (simp_all add: calibration_state_def)

lemma calibration_state_eqD:
  assumes "calibration_state s' = calibration_state s"
  shows "calibrated s' = calibrated s" "num_corner_tags s' = num_corner_tags s"
    "min_x s' = min_x s" "min_y s' = min_y s" "max_x s' = max_x s" "max_y s' = max_y s"
    "corner_distance_metres s' = corner_distance_metres s"
    "corner_distance_pixels s' = corner_distance_pixels s"
    "scale_factor s' = scale_factor s"
  using arg_cong [OF assms, of calibrated] arg_cong [OF assms, of num_corner_tags]
    arg_cong [OF assms, of min_x] arg_cong [OF assms, of min_y]
    arg_cong [OF assms, of max_x] arg_cong [OF assms, of max_y]
    arg_cong [OF assms, of corner_distance_metres] arg_cong [OF assms, of corner_distance_pixels]
    arg_cong [OF assms, of scale_factor]
  by (simp_all only: calibration_state_fields)

lemma process_tag_uncalibrated_other:
  "\<not> calibrated s \<Longrightarrow> fst d \<noteq> 0 \<Longrightarrow> process_tag s d = Inr s' \<Longrightarrow> s' = s"
  by (auto simp: process_tag_def split: sum.splits if_splits dest: Tag_init_id)

lemma process_tag_first_corner:
  "\<not> calibrated s \<Longrightarrow> num_corner_tags s = 0 \<Longrightarrow> Tag_init 0 raw = Inr tg \<Longrightarrow>
   process_tag s (0, raw) = Inr ((record_first_corner s tg)\<lparr>num_corner_tags := 1\<rparr>)"
  by (auto simp: process_tag_def record_first_corner_def dest: Tag_init_id)

lemma process_tag_second_corner:
  "\<not> calibrated s \<Longrightarrow> num_corner_tags s \<noteq> 0 \<Longrightarrow> Tag_init 0 raw = Inr tg \<Longrightarrow>
   process_tag s (0, raw) =
     (case calibrate (widen_bounds s tg) of Inl e \<Rightarrow> Inl e
      | Inr s1 \<Rightarrow> Inr (s1\<lparr>num_corner_tags := num_corner_tags s1 + 1\<rparr>))"
  by (auto simp: process_tag_def dest: Tag_init_id)

lemma process_tag_calibrated:
  "calibrated s \<Longrightarrow> process_tag s d = Inr s' \<Longrightarrow> calibration_state s' = calibration_state s"
  by (auto simp: process_tag_def split: sum.splits if_splits)

lemma process_tag_calibrated_corner:
  "calibrated s \<Longrightarrow> fst d = 0 \<Longrightarrow> process_tag s d = Inr s' \<Longrightarrow> s' = s"
  by (auto simp: process_tag_def split: sum.splits if_splits dest: Tag_init_id)

lemma process_tags_calibrated:
  "calibrated s \<Longrightarrow> process_tags s ds = Inr s' \<Longrightarrow> calibration_state s' = calibration_state s"
proof (induction ds arbitrary: s)
  case Nil
  then show ?case by simp
next
  case (Cons d ds)
  from Cons.prems obtain s1 where 1: "process_tag s d = Inr s1" and 2: "process_tags s1 ds = Inr s'"
    by (auto split: sum.splits)
  from process_tag_calibrated [OF Cons.prems(1) 1] have e1: "calibration_state s1 = calibration_state s" .
  then have c1: "calibrated s1" using Cons.prems(1) calibration_state_eqD(1) by blast
  from Cons.IH [OF c1 2] e1 show ?case by simp
qed

lemma run_cycle_calibrated:
  assumes "calibrated s" "run_cycle s f = Inr s'"
  shows "calibration_state s' = calibration_state s"
proof -
  have c0: "calibrated (s\<lparr>robots := []\<rparr>)" using assms(1) by simp
  show ?thesis
    using assms(2) process_tags_calibrated [OF c0]
    by (auto simp: run_cycle_def Let_def split: option.splits if_splits sum.splits)
qed

lemma run_calibrated:
  "calibrated s \<Longrightarrow> run s fs = Inr s' \<Longrightarrow> calibration_state s' = calibration_state s"
proof (induction fs arbitrary: s)
  case Nil
  then show ?case by simp
next
  case (Cons f fs)
  from Cons.prems obtain s1 where 1: "run_cycle s f = Inr s1" and 2: "run s1 fs = Inr s'"
    by (auto split: sum.splits)
  from run_cycle_calibrated [OF Cons.prems(1) 1] have e1: "calibration_state s1 = calibration_state s" .
  then have c1: "calibrated s1" using Cons.prems(1) calibration_state_eqD(1) by blast
  from Cons.IH [OF c1 2] e1 show ?case by simp
qed

lemma process_tags_ignores_corners:
  "calibrated s \<Longrightarrow> process_tags s ds = Inr s' \<Longrightarrow>
   process_tags s (filter (\<lambda>d. fst d \<noteq> 0) ds) = Inr s'"
proof (induction ds arbitrary: s)
  case Nil
  then show ?case by simp
next
  case (Cons d ds)
  from Cons.prems obtain s1 where 1: "process_tag s d = Inr s1" and 2: "process_tags s1 ds = Inr s'"
    by (auto split: sum.splits)
  from process_tag_calibrated [OF Cons.prems(1) 1] Cons.prems(1) have c1: "calibrated s1"
    using calibration_state_eqD(1) by blast
  show ?case
  proof (cases "fst d = 0")
    case True
    with process_tag_calibrated_corner [OF Cons.prems(1) _ 1] have "s1 = s" by simp
    with Cons.IH [OF Cons.prems(1)] 2 True show ?thesis by simp
  next
    case False
    with Cons.IH [OF c1 2] 1 show ?thesis by simp
  qed
qed

lemma calibrate_calibrated: "calibrate s = Inr s1 \<Longrightarrow> calibrated s1"
  by (auto simp: calibrate_def Let_def split: if_splits)

lemma process_tags_append:
  "process_tags s (as @ bs) =
     (case process_tags s as of Inl e \<Rightarrow> Inl e | Inr s1 \<Rightarrow> process_tags s1 bs)"
  by (induction as arbitrary: s) (auto split: sum.splits)

lemma second_sighting_calibrates:
  assumes "\<not> calibrated s" "num_corner_tags s \<noteq> 0" "process_tags s ds = Inr s'"
    and "filter (\<lambda>d. fst d = 0) ds = d2 # rest" "Tag_init 0 (snd d2) = Inr t2"
  shows "\<exists>s1. calibrate (widen_bounds s t2) = Inr s1 \<and>
              calibration_state s' = calibration_state (s1\<lparr>num_corner_tags := num_corner_tags s1 + 1\<rparr>)"
  using assms(3,4)
proof (induction ds)
  case Nil
  then show ?case by simp
next
  case (Cons d ds)
  from Cons.prems(1) obtain sA where 1: "process_tag s d = Inr sA" and 2: "process_tags sA ds = Inr s'"
    by (auto split: sum.splits)
  show ?case
  proof (cases "fst d = 0")
    case True
    with Cons.prems(2) have d: "d = (0, snd d2)" by (cases d) auto
    from 1 process_tag_second_corner [OF assms(1,2,5)] d
    obtain s1 where c: "calibrate (widen_bounds s t2) = Inr s1"
      and sA: "sA = s1\<lparr>num_corner_tags := num_corner_tags s1 + 1\<rparr>"
      by (auto split: sum.splits)
    from calibrate_calibrated [OF c] sA have "calibrated sA" by simp
    from process_tags_calibrated [OF this 2] c sA show ?thesis by simp
  next
    case False
    with process_tag_uncalibrated_other [OF assms(1) _ 1] have "sA = s" by simp
    with Cons.IH 2 Cons.prems(2) False show ?thesis by simp
  qed
qed

lemma first_sighting_then_second:
  assumes "\<not> calibrated s" "num_corner_tags s = 0" "process_tags s ds = Inr s'"
    and "filter (\<lambda>d. fst d = 0) ds = d1 # d2 # rest"
    and "Tag_init 0 (snd d1) = Inr t1" "Tag_init 0 (snd d2) = Inr t2"
  shows "\<exists>s1. calibrate (widen_bounds ((record_first_corner s t1)\<lparr>num_corner_tags := 1\<rparr>) t2) = Inr s1 \<and>
              calibration_state s' = calibration_state (s1\<lparr>num_corner_tags := num_corner_tags s1 + 1\<rparr>)"
  using assms(3,4)
proof (induction ds)
  case Nil
  then show ?case by simp
next
  case (Cons d ds)
  from Cons.prems(1) obtain sA where 1: "process_tag s d = Inr sA" and 2: "process_tags sA ds = Inr s'"
    by (auto split: sum.splits)
  show ?case
  proof (cases "fst d = 0")
    case True
    with Cons.prems(2) have d: "d = (0, snd d1)" and r: "filter (\<lambda>d. fst d = 0) ds = d2 # rest"
      by (cases d; auto)+
    from 1 process_tag_first_corner [OF assms(1,2,5)] d
    have sA: "sA = (record_first_corner s t1)\<lparr>num_corner_tags := 1\<rparr>" by simp
    have "\<not> calibrated sA" "num_corner_tags sA \<noteq> 0"
      using assms(1) by (simp_all add: sA record_first_corner_def)
    from second_sighting_calibrates [OF this 2 r assms(6)] sA show ?thesis by simp
  next
    case False
    with process_tag_uncalibrated_other [OF assms(1) _ 1] have "sA = s" by simp
    with Cons.IH 2 Cons.prems(2) False show ?thesis by simp
  qed
qed

lemma calibration_result_simps [simp]:
  "calibration_result (Inl e) = Inl e"
  "calibration_result (Inr s) = Inr (calibration_state s)"
  by (simp_all add: calibration_result_def)

lemma calibration_result_eq_InlD:
  "calibration_result a = calibration_result b \<Longrightarrow> a = Inl e \<Longrightarrow> b = Inl e"
  by (cases b) auto

lemma calibration_result_eq_InrD:
  "calibration_result a = calibration_result b \<Longrightarrow> a = Inr s \<Longrightarrow>
   \<exists>t. b = Inr t \<and> calibration_state t = calibration_state s"
  by (cases b) auto

lemma process_tag_robots_irrelevant:
  "calibration_result (process_tag (s\<lparr>robots := r\<rparr>) d) = calibration_result (process_tag s d)"
  by (auto simp: process_tag_def metric_position_def calibrate_def record_first_corner_def
      widen_bounds_def Let_def calibration_state_def split: sum.splits)

lemma process_tags_robots_irrelevant:
  "calibration_state s = calibration_state t \<Longrightarrow>
   calibration_result (process_tags s ds) = calibration_result (process_tags t ds)"
proof (induction ds arbitrary: s t)
  case Nil
  then show ?case by simp
next
  case (Cons d ds)
  have t: "t = s\<lparr>robots := robots t\<rparr>"
    using Cons.prems by (cases s; cases t) (simp add: calibration_state_def)
  have step: "calibration_result (process_tag s d) = calibration_result (process_tag t d)"
    using process_tag_robots_irrelevant [where s = s and r = "robots t" and d = d] t by simp
  show ?case
  proof (cases "process_tag s d")
    case (Inl e)
    with calibration_result_eq_InlD [OF step Inl] show ?thesis by simp
  next
    case (Inr s1)
    from calibration_result_eq_InrD [OF step Inr]
    obtain t1 where t1: "process_tag t d = Inr t1" "calibration_state t1 = calibration_state s1"
      by blast
    from Cons.IH [of s1 t1] t1 Inr show ?thesis by simp
  qed
qed

lemma run_cycle_as_process_tags:
  "calibration_result (run_cycle s f) = calibration_result (process_tags s (frame_detections f))"
proof (cases "tag_ids f")
  case None
  then show ?thesis by (simp add: run_cycle_def frame_detections_def)
next
  case (Some ids)
  show ?thesis
  proof (cases "length ids > 0")
    case False
    with Some show ?thesis by (simp add: run_cycle_def frame_detections_def)
  next
    case True
    let ?ds = "detections ids (raw_tags f)"
    have eq: "calibration_result (process_tags (s\<lparr>robots := []\<rparr>) ?ds) =
              calibration_result (process_tags s ?ds)"
      by (rule process_tags_robots_irrelevant) simp
    have "calibration_result (run_cycle s f) = calibration_result (process_tags (s\<lparr>robots := []\<rparr>) ?ds)"
      using Some True by (simp add: run_cycle_def Let_def split: sum.splits)
    with eq Some True show ?thesis by (simp add: frame_detections_def)
  qed
qed

lemma run_as_process_tags:
  "calibration_result (run s fs) =
   calibration_result (process_tags s (concat (map frame_detections fs)))"
proof (induction fs arbitrary: s)
  case Nil
  then show ?case by simp
next
  case (Cons f fs)
  show ?case
  proof (cases "run_cycle s f")
    case (Inl e)
    from calibration_result_eq_InlD [OF run_cycle_as_process_tags Inl] Inl
    show ?thesis by (simp add: process_tags_append)
  next
    case (Inr s1)
    from calibration_result_eq_InrD [OF run_cycle_as_process_tags Inr]
    obtain t1 where t1: "process_tags s (frame_detections f) = Inr t1"
      "calibration_state t1 = calibration_state s1"
      by blast
    from process_tags_robots_irrelevant [OF t1(2), of "concat (map frame_detections fs)"]
      Cons.IH [of s1] t1 Inr
    show ?thesis by (simp add: process_tags_append)
  qed
qed

lemma bounding_box_diagonal:
  "math_dist [min a c, min b d] [max a c, max b d] = math_dist [a, b] [c, d]"
proof -
  have "(min a c - max a c)\<^sup>2 = (a - c)\<^sup>2" for a c :: real
    by (cases "a \<le> c") (simp_all add: min_def max_def power2_commute)
  then show ?thesis by (simp add: math_dist_def)
qed

lemma math_dist_commute: "math_dist [a, b] [c, d] = math_dist [c, d] [a, b]"
  by (simp add: math_dist_def power2_commute)

lemma math_dist_zero_iff: "math_dist [a, b] [c, d] = 0 \<longleftrightarrow> a = c \<and> b = d"
  by (simp add: math_dist_def real_sqrt_eq_zero_cancel_iff sum_power2_eq_zero_iff)

lemma math_dist_nonneg: "0 \<le> math_dist p q"
  by (auto simp: math_dist_def intro!: sum_list_nonneg)

lemma calibrate_after_first:
  "calibrate (widen_bounds ((record_first_corner Tracker_init t1)\<lparr>num_corner_tags := 1\<rparr>) t2) = Inr s1
   \<Longrightarrow> calibrated s1 \<and> num_corner_tags s1 = 1
     \<and> min_x s1 = min (vx (centre t1)) (vx (centre t2))
     \<and> min_y s1 = min (vy (centre t1)) (vy (centre t2))
     \<and> max_x s1 = max (vx (centre t1)) (vx (centre t2))
     \<and> max_y s1 = max (vy (centre t1)) (vy (centre t2))
     \<and> corner_distance_metres s1 = 206 / 100
     \<and> corner_distance_pixels s1 =
          math_dist [real_of_int (min_x s1), real_of_int (min_y s1)]
                    [real_of_int (max_x s1), real_of_int (max_y s1)]
     \<and> scale_factor s1 = corner_distance_pixels s1 / (206 / 100)"
  by (auto simp: calibrate_def widen_bounds_def record_first_corner_def Tracker_init_def Let_def
      min_def max_def split: if_splits)

lemma run_calibrates:
  assumes "run Tracker_init fs = Inr s" "corner_sightings fs = d1 # d2 # rest"
    and "Tag_init 0 (snd d1) = Inr t1" "Tag_init 0 (snd d2) = Inr t2"
  shows "calibrated s" "num_corner_tags s = 2"
    "min_x s = min (vx (centre t1)) (vx (centre t2))"
    "min_y s = min (vy (centre t1)) (vy (centre t2))"
    "max_x s = max (vx (centre t1)) (vx (centre t2))"
    "max_y s = max (vy (centre t1)) (vy (centre t2))"
    "corner_distance_pixels s =
       math_dist [real_of_int (vx (centre t1)), real_of_int (vy (centre t1))]
                 [real_of_int (vx (centre t2)), real_of_int (vy (centre t2))]"
    "scale_factor s = corner_distance_pixels s / (206 / 100)"
proof -
  from calibration_result_eq_InrD [OF run_as_process_tags assms(1)]
  obtain t where t: "process_tags Tracker_init (concat (map frame_detections fs)) = Inr t"
    "calibration_state t = calibration_state s" by blast
  have "\<not> calibrated Tracker_init" "num_corner_tags Tracker_init = 0"
    by (simp_all add: Tracker_init_def)
  from first_sighting_then_second [OF this t(1) assms(2) [unfolded corner_sightings_def] assms(3,4)]
  obtain s1 where s1: "calibrate (widen_bounds ((record_first_corner Tracker_init t1)\<lparr>num_corner_tags := 1\<rparr>) t2) = Inr s1"
    and e: "calibration_state t = calibration_state (s1\<lparr>num_corner_tags := num_corner_tags s1 + 1\<rparr>)"
    by blast
  let ?s2 = "s1\<lparr>num_corner_tags := num_corner_tags s1 + 1\<rparr>"
  from e t(2) have eq: "calibration_state s = calibration_state ?s2" by simp
  note f = calibration_state_eqD [OF eq]
  note c = calibrate_after_first [OF s1]
  show "calibrated s" using f(1) c by simp
  show "num_corner_tags s = 2" using f(2) c by simp
  show "min_x s = min (vx (centre t1)) (vx (centre t2))" using f(3) c by simp
  show "min_y s = min (vy (centre t1)) (vy (centre t2))" using f(4) c by simp
  show "max_x s = max (vx (centre t1)) (vx (centre t2))" using f(5) c by simp
  show "max_y s = max (vy (centre t1)) (vy (centre t2))" using f(6) c by simp
  have "corner_distance_pixels s =
     math_dist [real_of_int (min (vx (centre t1)) (vx (centre t2))), real_of_int (min (vy (centre t1)) (vy (centre t2)))]
               [real_of_int (max (vx (centre t1)) (vx (centre t2))), real_of_int (max (vy (centre t1)) (vy (centre t2)))]"
    using f(8) c by simp
  then show "corner_distance_pixels s =
       math_dist [real_of_int (vx (centre t1)), real_of_int (vy (centre t1))]
                 [real_of_int (vx (centre t2)), real_of_int (vy (centre t2))]"
    using bounding_box_diagonal [of "real_of_int (vx (centre t1))" "real_of_int (vx (centre t2))"
        "real_of_int (vy (centre t1))" "real_of_int (vy (centre t2))"]
    by (simp add: of_int_min of_int_max)
  show "scale_factor s = corner_distance_pixels s / (206 / 100)" using f(8,9) c by simp
qed

subsection \<open>Concrete runs\<close>

lemma Tag_init_far_square:
  "Tag_init i far_square =
     Inr \<lparr>t_id = i, raw_tag = far_square,
          corners = [[1030, 0], [1031, 0], [1031, 1], [1030, 1]],
          t_tl = Vector2D 1030 0, t_tr = Vector2D 1031 0, t_br = Vector2D 1031 1,
          t_bl = Vector2D 1030 1,
          centre = Vector2D 1030 0, front = Vector2D 1030 0, angle = 0\<rparr>"
  by (simp add: Tag_init_def far_square_def corner_point_def getitem_simps py_int_def
      eval_nat_numeral atan2_def degrees_def Let_def)

lemma math_dist_horizontal: "math_dist [a, b] [c, b] = \<bar>a - c\<bar>"
  by (simp add: math_dist_def)

lemma frame_detections_corner_frames:
  "frame_detections first_corner_frame = [(0, unit_square)]"
  "frame_detections second_corner_frame = [(0, far_square)]"
  by (simp_all add: frame_detections_def first_corner_frame_def second_corner_frame_def
      detections_def)

lemma run_cycle_first_corner_frame:
  "run_cycle Tracker_init first_corner_frame =
     Inr (Tracker_init\<lparr>num_corner_tags := 1\<rparr>)"
  by (simp add: run_cycle_def first_corner_frame_def detections_def process_tag_def
      Tag_init_unit_square Tracker_init_def record_first_corner_def)

lemma run_cycle_second_corner_frame:
  "run_cycle (Tracker_init\<lparr>num_corner_tags := 1\<rparr>) second_corner_frame = Inr arena"
  by (simp add: run_cycle_def second_corner_frame_def detections_def process_tag_def
      Tag_init_far_square Tracker_init_def widen_bounds_def calibrate_def Let_def
      math_dist_horizontal arena_def neighbour_pass_def key_pairs_def)

lemma run_cycle_same_corner_again:
  "run_cycle (Tracker_init\<lparr>num_corner_tags := 1\<rparr>) first_corner_frame = Inr flat_arena"
  by (simp add: run_cycle_def first_corner_frame_def detections_def process_tag_def
      Tag_init_unit_square Tracker_init_def widen_bounds_def calibrate_def Let_def
      math_dist_horizontal flat_arena_def neighbour_pass_def key_pairs_def)

lemma run_two_corner_frames:
  "run Tracker_init [first_corner_frame, second_corner_frame] = Inr arena"
  by (simp add: run_cycle_first_corner_frame run_cycle_second_corner_frame)

lemma run_same_corner_twice:
  "run Tracker_init [first_corner_frame, first_corner_frame] = Inr flat_arena"
  by (simp add: run_cycle_first_corner_frame run_cycle_same_corner_again)

lemma corner_sightings_examples:
  "corner_sightings [first_corner_frame, second_corner_frame] = [(0, unit_square), (0, far_square)]"
  "corner_sightings [first_corner_frame, first_corner_frame] = [(0, unit_square), (0, unit_square)]"
  by (simp_all add: corner_sightings_def frame_detections_corner_frames)

lemma process_tag_arena_corner: "process_tag arena (0, unit_square) = Inr arena"
  by (simp add: process_tag_def Tag_init_unit_square arena_def)

lemma run_cycle_arena_corner: "run_cycle arena first_corner_frame = Inr arena"
  by (simp add: run_cycle_def first_corner_frame_def detections_def process_tag_def
      Tag_init_unit_square arena_def neighbour_pass_def key_pairs_def)

subsection \<open>Calibration: claims C5, C6 and C10\<close>

text \<open>
  Claim C5 (calibration determinism). Run the tracker from its initial state over any
  frames. If the first two sightings of a corner tag (id 0), in whatever frames they
  occur, have the integer centres \<open>P1\<close> and \<open>P2\<close>, the tracker is calibrated and its scale
  factor is the Euclidean distance of \<open>P1\<close> and \<open>P2\<close> divided by the reference distance
  2.06; the order of the two points does not matter, and the distance between the
  minimum and the maximum point of the bounding box is that same distance. (Floats are
  real numbers here, so "exactly" is exact real arithmetic.)
\<close>

theorem calibration_scale_factor:
  assumes "run Tracker_init fs = Inr s" and "corner_sightings fs = d1 # d2 # rest"
    and "Tag_init 0 (snd d1) = Inr t1" and "Tag_init 0 (snd d2) = Inr t2"
  shows "calibrated s
       \<and> scale_factor s =
           math_dist [real_of_int (vx (centre t1)), real_of_int (vy (centre t1))]
                     [real_of_int (vx (centre t2)), real_of_int (vy (centre t2))] / (206 / 100)
       \<and> scale_factor s =
           math_dist [real_of_int (vx (centre t2)), real_of_int (vy (centre t2))]
                     [real_of_int (vx (centre t1)), real_of_int (vy (centre t1))] / (206 / 100)
       \<and> math_dist [real_of_int (min_x s), real_of_int (min_y s)]
                   [real_of_int (max_x s), real_of_int (max_y s)] =
           math_dist [real_of_int (vx (centre t1)), real_of_int (vy (centre t1))]
                     [real_of_int (vx (centre t2)), real_of_int (vy (centre t2))]"
proof -
  note r = run_calibrates [OF assms]
  have bb: "math_dist [real_of_int (min_x s), real_of_int (min_y s)]
                      [real_of_int (max_x s), real_of_int (max_y s)] =
            math_dist [real_of_int (vx (centre t1)), real_of_int (vy (centre t1))]
                      [real_of_int (vx (centre t2)), real_of_int (vy (centre t2))]"
    using bounding_box_diagonal [of "real_of_int (vx (centre t1))" "real_of_int (vx (centre t2))"
        "real_of_int (vy (centre t1))" "real_of_int (vy (centre t2))"]
    by (simp add: r(3-6) of_int_min of_int_max)
  have sf: "scale_factor s =
           math_dist [real_of_int (vx (centre t1)), real_of_int (vy (centre t1))]
                     [real_of_int (vx (centre t2)), real_of_int (vy (centre t2))] / (206 / 100)"
    using r(7,8) by simp
  have sf': "scale_factor s =
           math_dist [real_of_int (vx (centre t2)), real_of_int (vy (centre t2))]
                     [real_of_int (vx (centre t1)), real_of_int (vy (centre t1))] / (206 / 100)"
    by (subst math_dist_commute) (rule sf)
  from r(1) sf sf' bb show ?thesis by blast
qed

theorem calibration_scale_factor_witness:
  "run Tracker_init [first_corner_frame, second_corner_frame] = Inr arena
   \<and> corner_sightings [first_corner_frame, second_corner_frame] = [(0, unit_square), (0, far_square)]
   \<and> \<not> isl (Tag_init 0 unit_square) \<and> \<not> isl (Tag_init 0 far_square)
   \<and> calibrated arena
   \<and> scale_factor arena = math_dist [0, 0] [1030, 0] / (206 / 100)
   \<and> scale_factor arena = 500"
proof -
  have t1: "Tag_init 0 (snd (0 :: int, unit_square)) = Inr (projr (Tag_init 0 unit_square))"
    and t2: "Tag_init 0 (snd (0 :: int, far_square)) = Inr (projr (Tag_init 0 far_square))"
    by (simp_all add: Tag_init_unit_square Tag_init_far_square)
  from calibration_scale_factor [OF run_two_corner_frames corner_sightings_examples(1) t1 t2]
  have "scale_factor arena = math_dist [0, 0] [1030, 0] / (206 / 100)"
    by (simp add: Tag_init_unit_square Tag_init_far_square)
  moreover from this have "scale_factor arena = 500"
    by (simp add: math_dist_horizontal)
  moreover have "calibrated arena"
    by (simp add: arena_def)
  moreover have "\<not> isl (Tag_init 0 unit_square)" "\<not> isl (Tag_init 0 far_square)"
    by (simp_all add: Tag_init_unit_square Tag_init_far_square)
  ultimately show ?thesis
    using run_two_corner_frames corner_sightings_examples(1) by blast
qed

text \<open>
  Claim C6 (calibration is terminal). From a calibrated tracker, whatever frames follow:
  every state the run reaches is calibrated and has the same scale factor, pixel
  bounds, corner count and corner distance; this also holds for every single detection
  and every single cycle. A corner tag (id 0) sighted after calibration changes
  nothing at all, and a cycle gives the same result with its corner tags removed.
\<close>

theorem calibration_is_final:
  assumes "calibrated s"
  shows "(\<forall>fs s'. run s fs = Inr s' \<longrightarrow>
            calibrated s' \<and> scale_factor s' = scale_factor s
          \<and> min_x s' = min_x s \<and> min_y s' = min_y s \<and> max_x s' = max_x s \<and> max_y s' = max_y s
          \<and> num_corner_tags s' = num_corner_tags s
          \<and> corner_distance_pixels s' = corner_distance_pixels s)
       \<and> (\<forall>f s'. run_cycle s f = Inr s' \<longrightarrow> calibration_state s' = calibration_state s)
       \<and> (\<forall>d s'. process_tag s d = Inr s' \<longrightarrow> calibration_state s' = calibration_state s)
       \<and> (\<forall>d s'. fst d = 0 \<longrightarrow> process_tag s d = Inr s' \<longrightarrow> s' = s)
       \<and> (\<forall>ds s'. process_tags s ds = Inr s' \<longrightarrow>
            process_tags s (filter (\<lambda>d. fst d \<noteq> 0) ds) = Inr s')"
proof (intro conjI allI impI)
  fix fs s' assume "run s fs = Inr s'"
  note f = calibration_state_eqD [OF run_calibrated [OF assms this]]
  show "calibrated s'" using f(1) assms by simp
  show "scale_factor s' = scale_factor s" by (rule f)
  show "min_x s' = min_x s" by (rule f)
  show "min_y s' = min_y s" by (rule f)
  show "max_x s' = max_x s" by (rule f)
  show "max_y s' = max_y s" by (rule f)
  show "num_corner_tags s' = num_corner_tags s" by (rule f)
  show "corner_distance_pixels s' = corner_distance_pixels s" by (rule f)
next
  fix f s' assume "run_cycle s f = Inr s'"
  then show "calibration_state s' = calibration_state s" by (rule run_cycle_calibrated [OF assms])
next
  fix d s' assume "process_tag s d = Inr s'"
  then show "calibration_state s' = calibration_state s" by (rule process_tag_calibrated [OF assms])
next
  fix d s' assume "fst d = 0" "process_tag s d = Inr s'"
  then show "s' = s" by (rule process_tag_calibrated_corner [OF assms])
next
  fix ds s' assume "process_tags s ds = Inr s'"
  then show "process_tags s (filter (\<lambda>d. fst d \<noteq> 0) ds) = Inr s'"
    by (rule process_tags_ignores_corners [OF assms])
qed

theorem calibration_is_final_witness:
  "calibrated arena
   \<and> run arena [first_corner_frame] = Inr arena
   \<and> fst (0 :: int, unit_square) = 0 \<and> process_tag arena (0, unit_square) = Inr arena
   \<and> process_tags arena [(0, unit_square)] = Inr arena
   \<and> process_tags arena (filter (\<lambda>d. fst d \<noteq> 0) [(0, unit_square)]) = Inr arena
   \<and> scale_factor arena = 500"
proof -
  have c: "calibrated arena" by (simp add: arena_def)
  have r: "run arena [first_corner_frame] = Inr arena"
    by (simp add: run_cycle_arena_corner)
  have p: "process_tags arena [(0, unit_square)] = Inr arena"
    by (simp add: process_tag_arena_corner)
  from calibration_is_final [OF c] p
  have "process_tags arena (filter (\<lambda>d. fst d \<noteq> 0) [(0, unit_square)]) = Inr arena"
    by blast
  moreover have "scale_factor arena = 500" by (simp add: arena_def)
  ultimately show ?thesis using c r p process_tag_arena_corner by simp
qed

text \<open>
  Claim C10 (division by a zero scale factor). Let the first two corner sightings of a
  run from the initial state have the centres \<open>P1\<close> and \<open>P2\<close>. The scale factor is 0
  exactly when \<open>P1 = P2\<close>. In that case the position computation of every later robot
  tag (any id but 0, any well-formed corners) raises \<^verbatim>\<open>ZeroDivisionError\<close>: nothing guards
  line 102, and the scale factor stays 0 in every later state. When \<open>P1 \<noteq> P2\<close> the
  scale factor is positive and every well-formed detection is processed without error.
\<close>

theorem coinciding_corners_divide_by_zero:
  assumes "run Tracker_init fs = Inr s" and "corner_sightings fs = d1 # d2 # rest"
    and "Tag_init 0 (snd d1) = Inr t1" and "Tag_init 0 (snd d2) = Inr t2"
  shows "(scale_factor s = 0 \<longleftrightarrow> centre t1 = centre t2)
       \<and> (centre t1 = centre t2 \<longrightarrow>
            (\<forall>i raw tg. i \<noteq> 0 \<longrightarrow> Tag_init i raw = Inr tg \<longrightarrow>
               process_tag s (i, raw) = Inl ZeroDivisionError)
          \<and> (\<forall>fs' s'. run s fs' = Inr s' \<longrightarrow> calibrated s' \<and> scale_factor s' = 0))
       \<and> (centre t1 \<noteq> centre t2 \<longrightarrow>
            0 < scale_factor s
          \<and> (\<forall>i raw tg. Tag_init i raw = Inr tg \<longrightarrow> (\<exists>s'. process_tag s (i, raw) = Inr s')))"
proof -
  note r = run_calibrates [OF assms]
  have z: "scale_factor s = 0 \<longleftrightarrow> centre t1 = centre t2"
    using r(7,8) math_dist_zero_iff [of "real_of_int (vx (centre t1))" "real_of_int (vy (centre t1))"
        "real_of_int (vx (centre t2))" "real_of_int (vy (centre t2))"]
    by (auto simp: Vector2D.expand)
  have nn: "0 \<le> scale_factor s"
    using r(7,8) math_dist_nonneg [of "[real_of_int (vx (centre t1)), real_of_int (vy (centre t1))]"
        "[real_of_int (vx (centre t2)), real_of_int (vy (centre t2))]"]
    by simp
  have a: "process_tag s (i, raw) = Inl ZeroDivisionError"
    if "scale_factor s = 0" "i \<noteq> 0" "Tag_init i raw = Inr tg" for i raw tg
    using that r(1) Tag_init_id [OF that(3)]
    by (simp add: process_tag_def metric_position_def)
  have b: "calibrated s' \<and> scale_factor s' = 0"
    if "scale_factor s = 0" "run s fs' = Inr s'" for fs' s'
    using calibration_state_eqD [OF run_calibrated [OF r(1) that(2)]] r(1) that(1) by simp
  have c: "\<exists>s'. process_tag s (i, raw) = Inr s'"
    if "scale_factor s \<noteq> 0" "Tag_init i raw = Inr tg" for i raw tg
    using that r(1) by (simp add: process_tag_def metric_position_def)
  from z nn a b c show ?thesis by (simp add: less_le)
qed

theorem coinciding_corners_divide_by_zero_witness:
  "run Tracker_init [first_corner_frame, first_corner_frame] = Inr flat_arena
   \<and> corner_sightings [first_corner_frame, first_corner_frame] = [(0, unit_square), (0, unit_square)]
   \<and> scale_factor flat_arena = 0
   \<and> (7 :: int) \<noteq> 0 \<and> \<not> isl (Tag_init 7 unit_square)
   \<and> process_tag flat_arena (7, unit_square) = Inl ZeroDivisionError
   \<and> run Tracker_init [first_corner_frame, second_corner_frame] = Inr arena
   \<and> corner_sightings [first_corner_frame, second_corner_frame] = [(0, unit_square), (0, far_square)]
   \<and> centre (projr (Tag_init 0 unit_square)) \<noteq> centre (projr (Tag_init 0 far_square))
   \<and> 0 < scale_factor arena
   \<and> \<not> isl (process_tag arena (7, unit_square))"
proof -
  have t1: "Tag_init 0 (snd (0 :: int, unit_square)) = Inr (projr (Tag_init 0 unit_square))"
    and t2: "Tag_init 0 (snd (0 :: int, far_square)) = Inr (projr (Tag_init 0 far_square))"
    and t7: "Tag_init 7 unit_square = Inr (projr (Tag_init 7 unit_square))"
    by (simp_all add: Tag_init_unit_square Tag_init_far_square)
  note flat = coinciding_corners_divide_by_zero
    [OF run_same_corner_twice corner_sightings_examples(2) t1 t1]
  note wide = coinciding_corners_divide_by_zero
    [OF run_two_corner_frames corner_sightings_examples(1) t1 t2]
  have ne: "centre (projr (Tag_init 0 unit_square)) \<noteq> centre (projr (Tag_init 0 far_square))"
    by (simp add: Tag_init_unit_square Tag_init_far_square)
  from flat have f0: "scale_factor flat_arena = 0" by blast
  from flat t7 have f1: "process_tag flat_arena (7, unit_square) = Inl ZeroDivisionError"
    by (metis zero_neq_numeral)
  from wide ne have w0: "0 < scale_factor arena" by blast
  from wide ne t7 obtain s' where "process_tag arena (7, unit_square) = Inr s'" by blast
  then have w1: "\<not> isl (process_tag arena (7, unit_square))" by simp
  have t: "\<not> isl (Tag_init 7 unit_square)" by (simp add: Tag_init_unit_square)
  from f0 f1 w0 w1 ne t show ?thesis
    using run_same_corner_twice run_two_corner_frames corner_sightings_examples by simp
qed

subsection \<open>Malformed detections: claim C3\<close>

lemma corner_point_error: "corner_point cs k = Inl e \<Longrightarrow> e = IndexError"
  by (auto simp: corner_point_def getitem_def split: sum.splits if_splits)

lemma corner_point_out_of_range: "length cs \<le> k \<Longrightarrow> corner_point cs k = Inl IndexError"
  by (simp add: corner_point_def getitem_def)

lemma Tag_init_error: "Tag_init i raw = Inl e \<Longrightarrow> e = IndexError"
  by (auto simp: Tag_init_def getitem_def Let_def split: sum.splits if_splits
      dest: corner_point_error)

lemma Tag_init_short:
  assumes "length cs < 4"
  shows "Tag_init i (cs # others) = Inl IndexError"
proof -
  have "corner_point cs 3 = Inl IndexError"
    using assms by (simp add: corner_point_out_of_range)
  then have "isl (Tag_init i (cs # others))"
    by (auto simp: Tag_init_def getitem_simps split: sum.splits)
  then obtain e where "Tag_init i (cs # others) = Inl e"
    by (cases "Tag_init i (cs # others)") auto
  with Tag_init_error [OF this] show ?thesis by simp
qed

lemma process_tags_stops:
  "process_tag s d = Inl e \<Longrightarrow> process_tags s (d # ds) = Inl e"
  by simp

lemma process_tags_failing_detection:
  assumes "\<And>s. isl (process_tag s d)"
  shows "isl (process_tags s (ds1 @ d # ds2))"
proof (cases "process_tags s ds1")
  case (Inl e)
  then show ?thesis by (simp add: process_tags_append)
next
  case (Inr s1)
  with assms [of s1] show ?thesis
    by (cases "process_tag s1 d") (simp_all add: process_tags_append)
qed

lemma isl_calibration_result [simp]: "isl (calibration_result r) = isl r"
  by (cases r) simp_all

lemma run_cycle_failing_detection:
  assumes "\<And>s. isl (process_tag s d)" and "d \<in> set (frame_detections f)"
  shows "isl (run_cycle s f)"
proof -
  from assms(2) obtain ds1 ds2 where "frame_detections f = ds1 @ d # ds2"
    by (auto simp: in_set_conv_decomp)
  with process_tags_failing_detection [OF assms(1), of s ds1 ds2]
  have "isl (process_tags s (frame_detections f))" by simp
  with arg_cong [OF run_cycle_as_process_tags [of s f], of isl] show ?thesis by simp
qed

lemma Tag_init_extra_corners:
  "Tag_init i ((c0 # c1 # c2 # c3 # extra) # others) =
     (case Tag_init i [[c0, c1, c2, c3]] of Inl e \<Rightarrow> Inl e
      | Inr t \<Rightarrow> Inr (t\<lparr>raw_tag := (c0 # c1 # c2 # c3 # extra) # others,
                         corners := c0 # c1 # c2 # c3 # extra\<rparr>))"
proof -
  have "corner_point (c0 # c1 # c2 # c3 # extra) k = corner_point [c0, c1, c2, c3] k"
    if "k < 4" for k
    using that by (simp add: corner_point_def getitem_def nth_Cons split: nat.splits)
  then have "corner_point (c0 # c1 # c2 # c3 # extra) 0 = corner_point [c0, c1, c2, c3] 0"
    "corner_point (c0 # c1 # c2 # c3 # extra) 1 = corner_point [c0, c1, c2, c3] 1"
    "corner_point (c0 # c1 # c2 # c3 # extra) 2 = corner_point [c0, c1, c2, c3] 2"
    "corner_point (c0 # c1 # c2 # c3 # extra) 3 = corner_point [c0, c1, c2, c3] 3"
    by simp_all
  then show ?thesis
    unfolding Tag_init_def
    by (simp add: getitem_simps Let_def split: sum.splits del: One_nat_def)
qed

lemma run_cycle_robot_frame:
  "run_cycle arena robot_frame = Inr (arena\<lparr>robots := [(7, robot7)]\<rparr>)"
  by (simp add: run_cycle_def robot_frame_def detections_def process_tag_def
      Tag_init_unit_square arena_def metric_position_def Robot_init_def robot7_def
      neighbour_pass_def key_pairs_def sense_pair_def)

lemma Tag_init_short_tag: "Tag_init i short_tag = Inl IndexError"
  unfolding short_tag_def by (rule Tag_init_short) simp

lemma run_cycle_mixed_frame: "run_cycle arena mixed_frame = Inl IndexError"
  by (simp add: run_cycle_def mixed_frame_def detections_def process_tag_def
      Tag_init_short_tag arena_def)

text \<open>
  Claim C3, as stated, fails. In the calibrated tracker \<open>arena\<close>, a frame that shows
  the unit square with id 7 yields robot 7. The same frame with a three-corner
  detection in front of it yields no robot and no \<^verbatim>\<open>MalformedDetection\<close>: the cycle ends
  with the \<^verbatim>\<open>IndexError\<close> of line 32, and the well-formed detection is never processed.
\<close>

theorem short_detection_is_not_skipped:
  "run_cycle arena robot_frame = Inr (arena\<lparr>robots := [(7, robot7)]\<rparr>)
   \<and> frame_detections mixed_frame = (5, short_tag) # frame_detections robot_frame
   \<and> length (hd short_tag) = 3
   \<and> run_cycle arena mixed_frame = Inl IndexError"
  by (simp add: run_cycle_robot_frame run_cycle_mixed_frame)
     (simp add: frame_detections_def mixed_frame_def robot_frame_def detections_def short_tag_def)

text \<open>
  Claim C3, amended. A raw detection with fewer than 4 corners is not rejected on its
  own: constructing its tag raises \<^verbatim>\<open>IndexError\<close>, nothing catches it, and so every
  detection list that contains it, every cycle over a frame that contains it and
  every run that reaches such a frame end with an exception; the detections after it
  are not processed. A detection with more than 4 corners is not rejected either:
  its tag is the tag of its first four corners.
\<close>

theorem short_detection_aborts_cycle:
  assumes "length cs < 4"
  shows "Tag_init i (cs # others) = Inl IndexError
       \<and> (\<forall>s ds. process_tags s ((i, cs # others) # ds) = Inl IndexError)
       \<and> (\<forall>s ds1 ds2. isl (process_tags s (ds1 @ (i, cs # others) # ds2)))
       \<and> (\<forall>s f. (i, cs # others) \<in> set (frame_detections f) \<longrightarrow> isl (run_cycle s f))
       \<and> (\<forall>s f fs. (i, cs # others) \<in> set (frame_detections f) \<longrightarrow> isl (run s (f # fs)))
       \<and> (\<forall>c0 c1 c2 c3 extra.
            Tag_init i ((c0 # c1 # c2 # c3 # extra) # others) =
              (case Tag_init i [[c0, c1, c2, c3]] of Inl e \<Rightarrow> Inl e
               | Inr t \<Rightarrow> Inr (t\<lparr>raw_tag := (c0 # c1 # c2 # c3 # extra) # others,
                                  corners := c0 # c1 # c2 # c3 # extra\<rparr>)))"
proof -
  note t = Tag_init_short [OF assms, of i others]
  have p: "process_tag s (i, cs # others) = Inl IndexError" for s
    by (simp add: process_tag_def t)
  then have q: "isl (process_tag s (i, cs # others))" for s by simp
  have c: "isl (run_cycle s f)" if "(i, cs # others) \<in> set (frame_detections f)" for s f
    using run_cycle_failing_detection [OF q that] .
  have r: "isl (run s (f # fs))" if "(i, cs # others) \<in> set (frame_detections f)" for s f fs
    using c [OF that, of s] by (cases "run_cycle s f") simp_all
  show ?thesis
  proof (intro conjI allI impI)
    show "Tag_init i (cs # others) = Inl IndexError" by (rule t)
  next
    fix s ds show "process_tags s ((i, cs # others) # ds) = Inl IndexError"
      by (simp add: p)
  next
    fix s ds1 ds2 show "isl (process_tags s (ds1 @ (i, cs # others) # ds2))"
      by (rule process_tags_failing_detection [OF q])
  next
    fix s f assume "(i, cs # others) \<in> set (frame_detections f)"
    then show "isl (run_cycle s f)" by (rule c)
  next
    fix s f fs assume "(i, cs # others) \<in> set (frame_detections f)"
    then show "isl (run s (f # fs))" by (rule r)
  next
    fix c0 c1 c2 c3 extra
    show "Tag_init i ((c0 # c1 # c2 # c3 # extra) # others) =
              (case Tag_init i [[c0, c1, c2, c3]] of Inl e \<Rightarrow> Inl e
               | Inr t \<Rightarrow> Inr (t\<lparr>raw_tag := (c0 # c1 # c2 # c3 # extra) # others,
                                  corners := c0 # c1 # c2 # c3 # extra\<rparr>))"
      by (rule Tag_init_extra_corners)
  qed
qed

theorem short_detection_aborts_cycle_witness:
  "length [[0, 0], [1, 0], [1, 1 :: real]] < 4
   \<and> Tag_init 5 short_tag = Inl IndexError
   \<and> (5, short_tag) \<in> set (frame_detections mixed_frame)
   \<and> isl (run_cycle arena mixed_frame)
   \<and> isl (run arena [mixed_frame, robot_frame])"
proof -
  have l: "length [[0, 0], [1, 0], [1, 1 :: real]] < 4" by simp
  have m: "(5, [[0, 0], [1, 0], [1, 1]] # []) \<in> set (frame_detections mixed_frame)"
    by (simp add: frame_detections_def mixed_frame_def detections_def short_tag_def)
  note w = short_detection_aborts_cycle [OF l, of 5 "[]"]
  from w have a: "Tag_init 5 [[[0, 0], [1, 0], [1, 1]]] = Inl IndexError" by (rule conjunct1)
  from w have "\<forall>s f. (5, [[[0, 0], [1, 0], [1, 1]]]) \<in> set (frame_detections f) \<longrightarrow> isl (run_cycle s f)"
    by (elim conjE)
  with m have b: "isl (run_cycle arena mixed_frame)" by blast
  from w have "\<forall>s f fs. (5, [[[0, 0], [1, 0], [1, 1]]]) \<in> set (frame_detections f) \<longrightarrow> isl (run s (f # fs))"
    by (elim conjE)
  with m have c: "isl (run arena [mixed_frame, robot_frame])" by blast
  from l a b c m show ?thesis unfolding short_tag_def by blast
qed

subsection \<open>The neighbour pass\<close>

lemma sense_pair_unfold:
  "sense_pair p rs =
     (case (map_of rs (fst p), map_of rs (snd p)) of
        (Some ra, Some rb) \<Rightarrow>
          if fst p \<noteq> snd p \<and> in_range ra rb
          then AList.update (fst p)
                 (ra\<lparr>neighbours := AList.update (snd p) (reading_of ra rb) (neighbours ra)\<rparr>) rs
          else rs
      | _ \<Rightarrow> rs)"
  by (simp add: sense_pair_def in_range_def reading_of_def Let_def split: option.splits)

lemma in_range_static: "in_range a b = in_range (static_part a) (static_part b)"
  by (simp add: in_range_def static_part_def)

lemma reading_of_static: "reading_of a b = reading_of (static_part a) (static_part b)"
  by (simp add: reading_of_def static_part_def)

lemma sense_pair_keys: "map fst (sense_pair p rs) = map fst rs"
  by (auto simp: sense_pair_unfold update_keys split: option.splits dest: map_of_SomeD
      intro: rev_image_eqI)

lemma sense_pair_static:
  "map_option static_part (map_of (sense_pair p rs) k) = map_option static_part (map_of rs k)"
  by (auto simp: sense_pair_unfold update_conv' static_part_def split: option.splits)

lemma sense_pair_lookup:
  "map_of (sense_pair p rs) a = Some ra' \<Longrightarrow>
   \<exists>ra. map_of rs a = Some ra \<and> static_part ra' = static_part ra"
  using sense_pair_static [of p rs a] by (cases "map_of rs a") auto

lemma sense_pair_lookup':
  "map_of rs a = Some ra \<Longrightarrow>
   \<exists>ra'. map_of (sense_pair p rs) a = Some ra' \<and> static_part ra' = static_part ra"
  using sense_pair_static [of p rs a] by (cases "map_of (sense_pair p rs) a") auto

lemma static_part_cong:
  assumes "static_part a = static_part a'" "static_part b = static_part b'"
  shows "in_range a b = in_range a' b'" "reading_of a b = reading_of a' b'"
  using assms in_range_static [of a b] in_range_static [of a' b']
    reading_of_static [of a b] reading_of_static [of a' b'] by simp_all

lemma sense_pair_new_reading:
  assumes "map_of (sense_pair p rs) a = Some ra'" "map_of (neighbours ra') b = Some rd"
  shows "\<exists>ra. map_of rs a = Some ra \<and>
           (map_of (neighbours ra) b = Some rd \<or>
            (a \<noteq> b \<and> p = (a, b) \<and> (\<exists>rb. map_of rs b = Some rb \<and> in_range ra rb \<and> rd = reading_of ra rb)))"
  using assms
  by (cases p)
     (auto simp: sense_pair_unfold update_conv' split: option.splits if_splits)

lemma readings_sound_sense_pair:
  assumes "readings_sound rs"
  shows "readings_sound (sense_pair p rs)"
  unfolding readings_sound_def
proof (intro allI impI)
  fix a ra' b rd
  assume 1: "map_of (sense_pair p rs) a = Some ra'" and 2: "map_of (neighbours ra') b = Some rd"
  from sense_pair_lookup [OF 1] obtain ra where ra: "map_of rs a = Some ra"
    "static_part ra' = static_part ra" by blast
  from sense_pair_new_reading [OF 1 2] ra(1)
  have "a \<noteq> b \<and> (\<exists>rb. map_of rs b = Some rb \<and> in_range ra rb \<and> rd = reading_of ra rb)"
    using assms unfolding readings_sound_def by fastforce
  then obtain rb where ab: "a \<noteq> b" and rb: "map_of rs b = Some rb" "in_range ra rb"
    "rd = reading_of ra rb" by blast
  from sense_pair_lookup' [OF rb(1), of p] obtain rb' where rb': "map_of (sense_pair p rs) b = Some rb'"
    "static_part rb' = static_part rb" by blast
  from static_part_cong [OF ra(2) rb'(2)] rb(2,3)
  have "in_range ra' rb'" "rd = reading_of ra' rb'" by simp_all
  with ab rb'(1)
  show "a \<noteq> b \<and> (\<exists>rb. map_of (sense_pair p rs) b = Some rb \<and> in_range ra' rb \<and> rd = reading_of ra' rb)"
    by blast
qed

lemma readings_sound_fold: "readings_sound rs \<Longrightarrow> readings_sound (fold sense_pair ps rs)"
  by (induction ps arbitrary: rs) (simp_all add: readings_sound_sense_pair)


lemma fold_sense_pair_static:
  "map_option static_part (map_of (fold sense_pair ps rs) k) = map_option static_part (map_of rs k)"
  by (induction ps arbitrary: rs) (simp_all add: sense_pair_static)

lemma sense_pair_keeps_reading:
  assumes "map_of rs a = Some ra" "map_of (neighbours ra) b \<noteq> None"
  shows "\<exists>ra'. map_of (sense_pair p rs) a = Some ra' \<and> map_of (neighbours ra') b \<noteq> None"
  using assms by (auto simp: sense_pair_unfold update_conv' split: option.splits)

lemma fold_sense_pair_keeps_reading:
  "map_of rs a = Some ra \<Longrightarrow> map_of (neighbours ra) b \<noteq> None \<Longrightarrow>
   \<exists>ra'. map_of (fold sense_pair ps rs) a = Some ra' \<and> map_of (neighbours ra') b \<noteq> None"
proof (induction ps arbitrary: rs ra)
  case Nil
  then show ?case by simp
next
  case (Cons p ps)
  from sense_pair_keeps_reading [OF Cons.prems, of p] obtain r1
    where "map_of (sense_pair p rs) a = Some r1" "map_of (neighbours r1) b \<noteq> None" by blast
  from Cons.IH [OF this] show ?case by simp
qed

lemma sense_pair_adds_reading:
  assumes "map_of rs a = Some ra" "map_of rs b = Some rb" "a \<noteq> b" "in_range ra rb"
  shows "\<exists>ra'. map_of (sense_pair (a, b) rs) a = Some ra' \<and> map_of (neighbours ra') b \<noteq> None"
  using assms by (simp add: sense_pair_unfold update_conv')

lemma fold_sense_pair_complete:
  assumes "(a, b) \<in> set ps" "map_of rs a = Some ra" "map_of rs b = Some rb" "a \<noteq> b"
    "in_range ra rb"
  shows "\<exists>ra'. map_of (fold sense_pair ps rs) a = Some ra' \<and> map_of (neighbours ra') b \<noteq> None"
  using assms
proof (induction ps arbitrary: rs ra rb)
  case Nil
  then show ?case by simp
next
  case (Cons p ps)
  show ?case
  proof (cases "p = (a, b)")
    case True
    from sense_pair_adds_reading [OF Cons.prems(2-5)] obtain r1
      where "map_of (sense_pair (a, b) rs) a = Some r1" "map_of (neighbours r1) b \<noteq> None" by blast
    from fold_sense_pair_keeps_reading [OF this, of ps] True show ?thesis by simp
  next
    case False
    with Cons.prems(1) have m: "(a, b) \<in> set ps" by simp
    from sense_pair_lookup' [OF Cons.prems(2), of p] obtain ra1
      where ra1: "map_of (sense_pair p rs) a = Some ra1" "static_part ra1 = static_part ra" by blast
    from sense_pair_lookup' [OF Cons.prems(3), of p] obtain rb1
      where rb1: "map_of (sense_pair p rs) b = Some rb1" "static_part rb1 = static_part rb" by blast
    from static_part_cong(1) [OF ra1(2) rb1(2)] Cons.prems(5) have "in_range ra1 rb1" by simp
    from Cons.IH [OF m ra1(1) rb1(1) Cons.prems(4) this] show ?thesis by simp
  qed
qed

subsection \<open>Invariants of the robot dictionary\<close>

lemma set_update_subset: "set (AList.update k v al) \<subseteq> insert (k, v) (set al)"
  by (induction al) auto

lemma keyed_by_id_lookup:
  "keyed_by_id rs \<Longrightarrow> (k, r) \<in> set rs \<longleftrightarrow> map_of rs k = Some r"
  by (auto simp: keyed_by_id_def dest: map_of_SomeD)

lemma fresh_Nil [simp]: "fresh []"
  by (simp add: fresh_def keyed_by_id_def)

lemma robots_record_first_corner [simp]: "robots (record_first_corner s tg) = robots s"
  by (simp add: record_first_corner_def)

lemma robots_widen_bounds [simp]: "robots (widen_bounds s tg) = robots s"
  by (simp add: widen_bounds_def Let_def)

lemma robots_calibrate: "calibrate s = Inr s1 \<Longrightarrow> robots s1 = robots s"
  by (auto simp: calibrate_def Let_def split: if_splits)

lemma process_tag_robots:
  assumes "process_tag s d = Inr s'"
  shows "robots s' = robots s \<or>
         (\<exists>tg pos. Tag_init (fst d) (snd d) = Inr tg \<and> fst d \<noteq> 0 \<and> calibrated s \<and>
            metric_position s tg = Inr pos \<and>
            robots s' = AList.update (fst d) (Robot_init tg pos) (robots s))"
proof -
  from assms obtain tg where tg: "Tag_init (fst d) (snd d) = Inr tg"
    by (auto simp: process_tag_def split: sum.splits)
  note i = Tag_init_id [OF tg]
  show ?thesis
  proof (cases "calibrated s")
    case True
    with assms tg i show ?thesis
      by (auto simp: process_tag_def split: sum.splits if_splits)
  next
    case False
    with assms tg have "robots s' = robots s"
      by (auto simp: process_tag_def split: sum.splits if_splits dest: robots_calibrate)
    then show ?thesis by simp
  qed
qed

lemma fresh_process_tag:
  assumes "fresh (robots s)" "process_tag s d = Inr s'"
  shows "fresh (robots s')"
proof (cases "robots s' = robots s")
  case True
  with assms(1) show ?thesis by simp
next
  case False
  with process_tag_robots [OF assms(2)] obtain tg pos where tg: "Tag_init (fst d) (snd d) = Inr tg"
    and r: "robots s' = AList.update (fst d) (Robot_init tg pos) (robots s)"
    by blast
  have "r_id (Robot_init tg pos) = fst d" "neighbours (Robot_init tg pos) = []"
    using Tag_init_id [OF tg] by (simp_all add: Robot_init_def)
  with assms(1) set_update_subset [of "fst d" "Robot_init tg pos" "robots s"]
  show ?thesis
    unfolding fresh_def keyed_by_id_def r
    by (auto simp: distinct_update)
qed

lemma fresh_process_tags:
  "fresh (robots s) \<Longrightarrow> process_tags s ds = Inr s' \<Longrightarrow> fresh (robots s')"
proof (induction ds arbitrary: s)
  case Nil
  then show ?case by simp
next
  case (Cons d ds)
  from Cons.prems(2) obtain s1 where 1: "process_tag s d = Inr s1" and 2: "process_tags s1 ds = Inr s'"
    by (auto split: sum.splits)
  from Cons.IH [OF fresh_process_tag [OF Cons.prems(1) 1] 2] show ?case .
qed

lemma fresh_tag_states:
  "fresh (robots s) \<Longrightarrow> t \<in> set (tag_states s ds) \<Longrightarrow> fresh (robots t)"
proof (induction ds arbitrary: s)
  case Nil
  then show ?case by simp
next
  case (Cons d ds)
  from Cons.prems(2) obtain s1 where 1: "process_tag s d = Inr s1"
    and 2: "t = s1 \<or> t \<in> set (tag_states s1 ds)"
    by (cases "process_tag s d") auto
  note f = fresh_process_tag [OF Cons.prems(1) 1]
  from 2 show ?case
  proof
    assume "t = s1" with f show ?thesis by simp
  next
    assume "t \<in> set (tag_states s1 ds)" from Cons.IH [OF f this] show ?thesis .
  qed
qed

lemma fresh_readings_sound: "fresh rs \<Longrightarrow> readings_sound rs"
  by (fastforce simp: fresh_def readings_sound_def dest: map_of_SomeD)

lemma r_id_static: "r_id r = r_id (static_part r)"
  by (simp add: static_part_def)

lemma keyed_by_id_sense_pair:
  assumes "keyed_by_id rs"
  shows "keyed_by_id (sense_pair p rs)"
proof -
  have d: "distinct (map fst (sense_pair p rs))"
    using assms by (simp add: sense_pair_keys keyed_by_id_def)
  have "r_id r = k" if "(k, r) \<in> set (sense_pair p rs)" for k r
  proof -
    from that d have "map_of (sense_pair p rs) k = Some r" by simp
    from sense_pair_lookup [OF this] obtain r0 where "map_of rs k = Some r0"
      "static_part r = static_part r0" by blast
    with assms r_id_static [of r] r_id_static [of r0] show ?thesis
      by (auto simp: keyed_by_id_def dest: map_of_SomeD)
  qed
  with d show ?thesis by (auto simp: keyed_by_id_def)
qed

lemma pair_states_invariants:
  "keyed_by_id rs \<Longrightarrow> readings_sound rs \<Longrightarrow> t \<in> set (pair_states rs ps) \<Longrightarrow>
   keyed_by_id t \<and> readings_sound t"
proof (induction ps arbitrary: rs)
  case Nil
  then show ?case by simp
next
  case (Cons p ps)
  note k = keyed_by_id_sense_pair [OF Cons.prems(1), of p]
  note r = readings_sound_sense_pair [OF Cons.prems(2), of p]
  from Cons.prems(3) have "t = sense_pair p rs \<or> t \<in> set (pair_states (sense_pair p rs) ps)"
    by simp
  then show ?case
  proof
    assume "t = sense_pair p rs" with k r show ?thesis by simp
  next
    assume "t \<in> set (pair_states (sense_pair p rs) ps)"
    from Cons.IH [OF k r this] show ?thesis .
  qed
qed

lemma pair_states_Nil_iff [simp]: "pair_states rs ps = [] \<longleftrightarrow> ps = []"
  by (cases ps) simp_all


lemma keyed_by_id_fold: "keyed_by_id rs \<Longrightarrow> keyed_by_id (fold sense_pair ps rs)"
  by (induction ps arbitrary: rs) (simp_all add: keyed_by_id_sense_pair)

lemma sound_no_self_neighbour:
  assumes "keyed_by_id rs" "readings_sound rs"
  shows "no_self_neighbour rs"
  unfolding no_self_neighbour_def
proof (intro ballI, clarify, intro conjI)
  fix k r assume m: "(k, r) \<in> set rs"
  with assms(1) show id: "r_id r = k" by (auto simp: keyed_by_id_def)
  from m assms(1) have l: "map_of rs k = Some r" by (simp add: keyed_by_id_lookup)
  show "r_id r \<notin> fst ` set (neighbours r)"
  proof
    assume "r_id r \<in> fst ` set (neighbours r)"
    with id have "k \<in> dom (map_of (neighbours r))"
      by (simp add: dom_map_of_conv_image_fst)
    then obtain rd where "map_of (neighbours r) k = Some rd" by blast
    with assms(2) l show False unfolding readings_sound_def by blast
  qed
qed

subsection \<open>One cycle and its intermediate states\<close>

lemma process_tag_stays_calibrated: "calibrated s \<Longrightarrow> process_tag s d = Inr s' \<Longrightarrow> calibrated s'"
  using calibration_state_eqD(1) [OF process_tag_calibrated] by blast

lemma process_tags_uncalibrated_robots:
  "process_tags s ds = Inr s' \<Longrightarrow> \<not> calibrated s' \<Longrightarrow> robots s' = robots s"
proof (induction ds arbitrary: s)
  case Nil
  then show ?case by simp
next
  case (Cons d ds)
  from Cons.prems(1) obtain s1 where 1: "process_tag s d = Inr s1" and 2: "process_tags s1 ds = Inr s'"
    by (auto split: sum.splits)
  from Cons.IH [OF 2 Cons.prems(2)] have r: "robots s' = robots s1" .
  have "\<not> calibrated s1"
    using calibration_state_eqD(1) [OF process_tags_calibrated [OF _ 2]] Cons.prems(2) by blast
  with process_tag_stays_calibrated [OF _ 1] have "\<not> calibrated s" by blast
  with process_tag_robots [OF 1] r show ?case by auto
qed


lemma run_cycle_cases:
  assumes "run_cycle s f = Inr s'"
  obtains (idle) "frame_detections f = []" "s' = s\<lparr>robots := []\<rparr>"
      "cycle_states s f = [s\<lparr>robots := []\<rparr>]"
  | (uncalibrated) s1 where "process_tags (s\<lparr>robots := []\<rparr>) (frame_detections f) = Inr s1"
      "\<not> calibrated s1" "s' = s1"
      "cycle_states s f = s\<lparr>robots := []\<rparr> # tag_states (s\<lparr>robots := []\<rparr>) (frame_detections f)"
  | (calibrated) s1 where "process_tags (s\<lparr>robots := []\<rparr>) (frame_detections f) = Inr s1"
      "calibrated s1" "s' = s1\<lparr>robots := neighbour_pass (robots s1)\<rparr>"
      "cycle_states s f = s\<lparr>robots := []\<rparr> # tag_states (s\<lparr>robots := []\<rparr>) (frame_detections f)
         @ map (\<lambda>rs. s1\<lparr>robots := rs\<rparr>) (pair_states (robots s1) (key_pairs (robots s1)))"
proof (cases "tag_ids f")
  case None
  with assms show ?thesis
    by (intro idle) (simp_all add: run_cycle_def cycle_states_def frame_detections_def Let_def)
next
  case (Some ids)
  show ?thesis
  proof (cases "length ids > 0")
    case False
    with Some assms show ?thesis
      by (intro idle) (simp_all add: run_cycle_def cycle_states_def frame_detections_def Let_def)
  next
    case True
    with Some have fd: "frame_detections f = detections ids (raw_tags f)"
      by (simp add: frame_detections_def)
    from assms Some True obtain s1
      where s1: "process_tags (s\<lparr>robots := []\<rparr>) (detections ids (raw_tags f)) = Inr s1"
      by (auto simp: run_cycle_def Let_def split: sum.splits)
    show ?thesis
    proof (cases "calibrated s1")
      case c: True
      with assms Some True s1 fd show ?thesis
        by (intro calibrated [of s1]) (simp_all add: run_cycle_def cycle_states_def Let_def)
    next
      case c: False
      with assms Some True s1 fd show ?thesis
        by (intro uncalibrated [of s1]) (simp_all add: run_cycle_def cycle_states_def Let_def)
    qed
  qed
qed


lemma run_cycle_invariants:
  assumes "run_cycle s f = Inr s'"
  shows "keyed_by_id (robots s')" "readings_sound (robots s')"
proof -
  have "keyed_by_id (robots s') \<and> readings_sound (robots s')"
    using assms
  proof (cases rule: run_cycle_cases)
    case idle
    then show ?thesis using fresh_Nil fresh_readings_sound [of "[]"] by (simp add: fresh_def)
  next
    case (uncalibrated s1)
    from fresh_process_tags [OF _ uncalibrated(1)] have "fresh (robots s1)" by simp
    with uncalibrated(3) fresh_readings_sound show ?thesis by (simp add: fresh_def)
  next
    case (calibrated s1)
    from fresh_process_tags [OF _ calibrated(1)] have "fresh (robots s1)" by simp
    then have "keyed_by_id (robots s1)" "readings_sound (robots s1)"
      using fresh_readings_sound by (simp_all add: fresh_def)
    with calibrated(3) show ?thesis
      by (simp add: neighbour_pass_def keyed_by_id_fold readings_sound_fold)
  qed
  then show "keyed_by_id (robots s')" "readings_sound (robots s')" by simp_all
qed

lemma cycle_states_fresh_prefix:
  "t \<in> set (s\<lparr>robots := []\<rparr> # tag_states (s\<lparr>robots := []\<rparr>) ds) \<Longrightarrow> fresh (robots t)"
  using fresh_tag_states [of "s\<lparr>robots := []\<rparr>" t ds] by auto

lemma cycle_states_subset:
  "set (cycle_states s f) \<subseteq>
     set (s\<lparr>robots := []\<rparr> # tag_states (s\<lparr>robots := []\<rparr>) (frame_detections f)) \<union>
     (case process_tags (s\<lparr>robots := []\<rparr>) (frame_detections f) of Inl e \<Rightarrow> {}
      | Inr s1 \<Rightarrow> (\<lambda>rs. s1\<lparr>robots := rs\<rparr>) ` set (pair_states (robots s1) (key_pairs (robots s1))))"
  by (auto simp: cycle_states_def frame_detections_def Let_def split: option.splits sum.splits if_splits)

lemma cycle_states_invariants:
  assumes "t \<in> set (cycle_states s f)"
  shows "keyed_by_id (robots t) \<and> readings_sound (robots t)"
proof -
  let ?s0 = "s\<lparr>robots := []\<rparr>"
  from assms cycle_states_subset [of s f]
  consider "t \<in> set (?s0 # tag_states ?s0 (frame_detections f))"
    | s1 rs where "process_tags ?s0 (frame_detections f) = Inr s1"
      "rs \<in> set (pair_states (robots s1) (key_pairs (robots s1)))" "t = s1\<lparr>robots := rs\<rparr>"
    by (cases "process_tags ?s0 (frame_detections f)") auto
  then show ?thesis
  proof cases
    case 1
    from cycle_states_fresh_prefix [OF 1] fresh_readings_sound show ?thesis
      by (simp add: fresh_def)
  next
    case 2
    from fresh_process_tags [OF _ 2(1)] have "fresh (robots s1)" by simp
    then have "keyed_by_id (robots s1)" "readings_sound (robots s1)"
      using fresh_readings_sound by (simp_all add: fresh_def)
    from pair_states_invariants [OF this 2(2)] 2(3) show ?thesis by simp
  qed
qed

subsection \<open>A cycle with two robots, step by step\<close>

lemma Tag_init_near_square:
  "Tag_init i near_square =
     Inr \<lparr>t_id = i, raw_tag = near_square,
          corners = [[100, 0], [101, 0], [101, 1], [100, 1]],
          t_tl = Vector2D 100 0, t_tr = Vector2D 101 0, t_br = Vector2D 101 1,
          t_bl = Vector2D 100 1,
          centre = Vector2D 100 0, front = Vector2D 100 0, angle = 0\<rparr>"
  by (simp add: Tag_init_def near_square_def corner_point_def getitem_simps py_int_def
      eval_nat_numeral atan2_def degrees_def Let_def)

lemma process_tag_arena_7:
  "process_tag (arena\<lparr>robots := rs\<rparr>) (7, unit_square) =
     Inr (arena\<lparr>robots := AList.update 7 robot7 rs\<rparr>)"
  by (simp add: process_tag_def Tag_init_unit_square arena_def metric_position_def
      Robot_init_def robot7_def)

lemma process_tag_arena_8:
  "process_tag (arena\<lparr>robots := rs\<rparr>) (8, near_square) =
     Inr (arena\<lparr>robots := AList.update 8 robot8 rs\<rparr>)"
  by (simp add: process_tag_def Tag_init_near_square arena_def metric_position_def
      Robot_init_def robot8_def)

lemma sense_pair_7_8:
  "sense_pair (7, 8) [(7, robot7), (8, robot8)] = [(7, robot7_sees_8), (8, robot8)]"
  by (simp add: sense_pair_def robot7_def robot8_def robot7_sees_8_def math_dist_horizontal
      atan2_def degrees_def Let_def)

lemma sense_pair_8_7:
  "sense_pair (8, 7) [(7, robot7_sees_8), (8, robot8)] = [(7, robot7_sees_8), (8, robot8_sees_7)]"
  by (simp add: sense_pair_def robot7_def robot8_def robot7_sees_8_def robot8_sees_7_def
      math_dist_horizontal atan2_def degrees_def Let_def)

lemma sense_pair_same: "sense_pair (k, k) rs = rs"
  by (simp add: sense_pair_def split: option.splits)


lemma process_tags_pair_frame:
  "process_tags (arena\<lparr>robots := []\<rparr>) [(7, unit_square), (8, near_square)] =
     Inr (arena\<lparr>robots := [(7, robot7), (8, robot8)]\<rparr>)"
  by (simp add: process_tag_arena_7 process_tag_arena_8)

lemma arena_robots_Nil [simp]: "arena\<lparr>robots := []\<rparr> = arena"
  by (simp add: arena_def)

lemma run_cycle_pair_frame:
  "run_cycle (arena\<lparr>robots := old\<rparr>) pair_frame =
     Inr (arena\<lparr>robots := [(7, robot7_sees_8), (8, robot8_sees_7)]\<rparr>)"
proof -
  have c: "calibrated (arena\<lparr>robots := rs\<rparr>)" for rs by (simp add: arena_def)
  have "neighbour_pass [(7, robot7), (8, robot8)] = [(7, robot7_sees_8), (8, robot8_sees_7)]"
    by (simp add: neighbour_pass_def key_pairs_def sense_pair_same sense_pair_7_8 sense_pair_8_7)
  then show ?thesis
    using process_tags_pair_frame c
    by (simp add: run_cycle_def pair_frame_def detections_def del: process_tags.simps)
qed

lemma cycle_states_pair_frame:
  "cycle_states (arena\<lparr>robots := old\<rparr>) pair_frame =
     [arena,
      arena\<lparr>robots := [(7, robot7)]\<rparr>,
      arena\<lparr>robots := [(7, robot7), (8, robot8)]\<rparr>,
      arena\<lparr>robots := [(7, robot7), (8, robot8)]\<rparr>,
      arena\<lparr>robots := [(7, robot7_sees_8), (8, robot8)]\<rparr>,
      arena\<lparr>robots := [(7, robot7_sees_8), (8, robot8_sees_7)]\<rparr>,
      arena\<lparr>robots := [(7, robot7_sees_8), (8, robot8_sees_7)]\<rparr>]"
proof -
  have c: "calibrated (arena\<lparr>robots := rs\<rparr>)" for rs by (simp add: arena_def)
  have t: "tag_states arena [(7, unit_square), (8, near_square)] =
             [arena\<lparr>robots := [(7, robot7)]\<rparr>, arena\<lparr>robots := [(7, robot7), (8, robot8)]\<rparr>]"
    using process_tag_arena_7 [of "[]"] process_tag_arena_8 [of "[(7, robot7)]"] by simp
  have p: "pair_states [(7, robot7), (8, robot8)] (key_pairs [(7, robot7), (8, robot8)]) =
             [[(7, robot7), (8, robot8)], [(7, robot7_sees_8), (8, robot8)],
              [(7, robot7_sees_8), (8, robot8_sees_7)], [(7, robot7_sees_8), (8, robot8_sees_7)]]"
    by (simp add: key_pairs_def sense_pair_same sense_pair_7_8 sense_pair_8_7)
  show ?thesis
    using process_tags_pair_frame c t p
    by (simp add: cycle_states_def pair_frame_def detections_def
        del: process_tags.simps tag_states.simps pair_states.simps)
qed

subsection \<open>The neighbour relation: claim C7\<close>

lemma run_no_self_neighbour:
  "no_self_neighbour (robots s) \<Longrightarrow> run s fs = Inr s' \<Longrightarrow> no_self_neighbour (robots s')"
proof (induction fs arbitrary: s)
  case Nil
  then show ?case by simp
next
  case (Cons f fs)
  from Cons.prems(2) obtain s1 where 1: "run_cycle s f = Inr s1" and 2: "run s1 fs = Inr s'"
    by (auto split: sum.splits)
  from run_cycle_invariants [OF 1] have "no_self_neighbour (robots s1)"
    by (rule sound_no_self_neighbour)
  from Cons.IH [OF this 2] show ?case .
qed

text \<open>
  Claim C7 (no self-neighbouring). In the robot dictionary of every state a cycle
  passes through (so in whatever a reader can observe), in the dictionary a completed
  cycle leaves, and in every state a run from the initial tracker reaches, each robot
  is stored under its own id and that id is not a key of its \<open>neighbours\<close>.
\<close>

theorem no_self_neighbouring:
  "(\<forall>t \<in> set (cycle_states s f). no_self_neighbour (robots t))
   \<and> (\<forall>s'. run_cycle s f = Inr s' \<longrightarrow> no_self_neighbour (robots s'))
   \<and> (\<forall>fs s'. run Tracker_init fs = Inr s' \<longrightarrow> no_self_neighbour (robots s'))"
proof (intro conjI ballI allI impI)
  fix t assume "t \<in> set (cycle_states s f)"
  from cycle_states_invariants [OF this] show "no_self_neighbour (robots t)"
    by (simp add: sound_no_self_neighbour)
next
  fix s' assume "run_cycle s f = Inr s'"
  from run_cycle_invariants [OF this] show "no_self_neighbour (robots s')"
    by (rule sound_no_self_neighbour)
next
  fix fs s' assume "run Tracker_init fs = Inr s'"
  moreover have "no_self_neighbour (robots Tracker_init)"
    by (simp add: no_self_neighbour_def Tracker_init_def)
  ultimately show "no_self_neighbour (robots s')" by (rule run_no_self_neighbour [rotated])
qed

theorem no_self_neighbouring_witness:
  "arena\<lparr>robots := [(7, robot7_sees_8), (8, robot8)]\<rparr> \<in> set (cycle_states arena pair_frame)
   \<and> run_cycle arena pair_frame = Inr (arena\<lparr>robots := [(7, robot7_sees_8), (8, robot8_sees_7)]\<rparr>)
   \<and> run Tracker_init [first_corner_frame, second_corner_frame, pair_frame] =
        Inr (arena\<lparr>robots := [(7, robot7_sees_8), (8, robot8_sees_7)]\<rparr>)
   \<and> no_self_neighbour [(7, robot7_sees_8), (8, robot8)]
   \<and> no_self_neighbour [(7, robot7_sees_8), (8, robot8_sees_7)]
   \<and> fst ` set (neighbours robot7_sees_8) = {8} \<and> fst ` set (neighbours robot8_sees_7) = {7}"
proof -
  have m: "arena\<lparr>robots := [(7, robot7_sees_8), (8, robot8)]\<rparr> \<in> set (cycle_states arena pair_frame)"
    using cycle_states_pair_frame [of "[]"] by simp
  have c: "run_cycle arena pair_frame = Inr (arena\<lparr>robots := [(7, robot7_sees_8), (8, robot8_sees_7)]\<rparr>)"
    using run_cycle_pair_frame [of "[]"] by simp
  have r: "run Tracker_init [first_corner_frame, second_corner_frame, pair_frame] =
        Inr (arena\<lparr>robots := [(7, robot7_sees_8), (8, robot8_sees_7)]\<rparr>)"
    by (simp add: run_cycle_first_corner_frame run_cycle_second_corner_frame c)
  note w = no_self_neighbouring [of arena pair_frame]
  from w m have 1: "no_self_neighbour [(7, robot7_sees_8), (8, robot8)]" by fastforce
  from w r have 2: "no_self_neighbour [(7, robot7_sees_8), (8, robot8_sees_7)]" by fastforce
  have 3: "fst ` set (neighbours robot7_sees_8) = {8}" "fst ` set (neighbours robot8_sees_7) = {7}"
    by (simp_all add: robot7_sees_8_def robot8_sees_7_def)
  from m c r 1 2 3 show ?thesis by blast
qed

lemma key_pairs_mem:
  "map_of rs a = Some ra \<Longrightarrow> map_of rs b = Some rb \<Longrightarrow> (a, b) \<in> set (key_pairs rs)"
  by (auto simp: key_pairs_def dest!: map_of_SomeD intro: rev_image_eqI)

subsection \<open>What a concurrent reader observes: claim C1\<close>

lemma built_from_Nil [simp]: "built_from ds []"
  by (simp add: built_from_def)

lemma r_tag_Robot_init [simp]: "r_tag (Robot_init tg pos) = tg"
  by (simp add: Robot_init_def)




















subsection \<open>The protocol handler: claims C2 and C4\<close>


















section \<open>Properties of the tracker with open floating-point operations\<close>

subsection \<open>The neighbour pass\<close>

lemma sense_pair_fl_unfold:
  "sense_pair_fl fl p rs =
     (case (map_of rs (fst p), map_of rs (snd p)) of
        (Some ra, Some rb) \<Rightarrow>
          if fst p \<noteq> snd p \<and> in_range_fl fl ra rb
          then AList.update (fst p)
                 (ra\<lparr>neighbours := AList.update (snd p) (reading_of_fl fl ra rb) (neighbours ra)\<rparr>) rs
          else rs
      | _ \<Rightarrow> rs)"
  by (simp add: sense_pair_fl_def in_range_fl_def reading_of_fl_def Let_def split: option.splits)

lemma in_range_static_fl: "in_range_fl fl a b = in_range_fl fl (static_part a) (static_part b)"
  by (simp add: in_range_fl_def static_part_def)

lemma reading_of_static_fl: "reading_of_fl fl a b = reading_of_fl fl (static_part a) (static_part b)"
  by (simp add: reading_of_fl_def static_part_def)

lemma sense_pair_fl_keys: "map fst (sense_pair_fl fl p rs) = map fst rs"
  by (auto simp: sense_pair_fl_unfold update_keys split: option.splits dest: map_of_SomeD
      intro: rev_image_eqI)

lemma sense_pair_fl_static:
  "map_option static_part (map_of (sense_pair_fl fl p rs) k) = map_option static_part (map_of rs k)"
  by (auto simp: sense_pair_fl_unfold update_conv' static_part_def split: option.splits)

lemma sense_pair_fl_lookup:
  "map_of (sense_pair_fl fl p rs) a = Some ra' \<Longrightarrow>
   \<exists>ra. map_of rs a = Some ra \<and> static_part ra' = static_part ra"
  using sense_pair_fl_static [of fl p rs a] by (cases "map_of rs a") auto

lemma sense_pair_fl_lookup':
  "map_of rs a = Some ra \<Longrightarrow>
   \<exists>ra'. map_of (sense_pair_fl fl p rs) a = Some ra' \<and> static_part ra' = static_part ra"
  using sense_pair_fl_static [of fl p rs a] by (cases "map_of (sense_pair_fl fl p rs) a") auto

lemma static_part_cong_fl:
  assumes "static_part a = static_part a'" "static_part b = static_part b'"
  shows "in_range_fl fl a b = in_range_fl fl a' b'" "reading_of_fl fl a b = reading_of_fl fl a' b'"
  using assms in_range_static_fl [of fl a b] in_range_static_fl [of fl a' b']
    reading_of_static_fl [of fl a b] reading_of_static_fl [of fl a' b'] by simp_all

lemma sense_pair_fl_new_reading:
  assumes "map_of (sense_pair_fl fl p rs) a = Some ra'" "map_of (neighbours ra') b = Some rd"
  shows "\<exists>ra. map_of rs a = Some ra \<and>
           (map_of (neighbours ra) b = Some rd \<or>
            (a \<noteq> b \<and> p = (a, b) \<and> (\<exists>rb. map_of rs b = Some rb \<and> in_range_fl fl ra rb \<and> rd = reading_of_fl fl ra rb)))"
  using assms
  by (cases p)
     (auto simp: sense_pair_fl_unfold update_conv' split: option.splits if_splits)

lemma readings_sound_sense_pair_fl:
  assumes "readings_sound_fl fl rs"
  shows "readings_sound_fl fl (sense_pair_fl fl p rs)"
  unfolding readings_sound_fl_def
proof (intro allI impI)
  fix a ra' b rd
  assume 1: "map_of (sense_pair_fl fl p rs) a = Some ra'" and 2: "map_of (neighbours ra') b = Some rd"
  from sense_pair_fl_lookup [OF 1] obtain ra where ra: "map_of rs a = Some ra"
    "static_part ra' = static_part ra" by blast
  from sense_pair_fl_new_reading [OF 1 2] ra(1)
  have "a \<noteq> b \<and> (\<exists>rb. map_of rs b = Some rb \<and> in_range_fl fl ra rb \<and> rd = reading_of_fl fl ra rb)"
    using assms unfolding readings_sound_fl_def by fastforce
  then obtain rb where ab: "a \<noteq> b" and rb: "map_of rs b = Some rb" "in_range_fl fl ra rb"
    "rd = reading_of_fl fl ra rb" by blast
  from sense_pair_fl_lookup' [OF rb(1), where p = p and fl = fl] obtain rb' where rb': "map_of (sense_pair_fl fl p rs) b = Some rb'"
    "static_part rb' = static_part rb" by blast
  from static_part_cong_fl [OF ra(2) rb'(2)] rb(2,3)
  have "in_range_fl fl ra' rb'" "rd = reading_of_fl fl ra' rb'" by simp_all
  with ab rb'(1)
  show "a \<noteq> b \<and> (\<exists>rb. map_of (sense_pair_fl fl p rs) b = Some rb \<and> in_range_fl fl ra' rb \<and> rd = reading_of_fl fl ra' rb)"
    by blast
qed

lemma readings_sound_fold_fl: "readings_sound_fl fl rs \<Longrightarrow> readings_sound_fl fl (fold (sense_pair_fl fl) ps rs)"
  by (induction ps arbitrary: rs) (simp_all add: readings_sound_sense_pair_fl)

lemma fold_sense_pair_fl_keys: "map fst (fold (sense_pair_fl fl) ps rs) = map fst rs"
  by (induction ps arbitrary: rs) (simp_all add: sense_pair_fl_keys)

lemma fold_sense_pair_fl_static:
  "map_option static_part (map_of (fold (sense_pair_fl fl) ps rs) k) = map_option static_part (map_of rs k)"
  by (induction ps arbitrary: rs) (simp_all add: sense_pair_fl_static)

lemma sense_pair_fl_keeps_reading:
  assumes "map_of rs a = Some ra" "map_of (neighbours ra) b \<noteq> None"
  shows "\<exists>ra'. map_of (sense_pair_fl fl p rs) a = Some ra' \<and> map_of (neighbours ra') b \<noteq> None"
  using assms by (auto simp: sense_pair_fl_unfold update_conv' split: option.splits)

lemma fold_sense_pair_fl_keeps_reading:
  "map_of rs a = Some ra \<Longrightarrow> map_of (neighbours ra) b \<noteq> None \<Longrightarrow>
   \<exists>ra'. map_of (fold (sense_pair_fl fl) ps rs) a = Some ra' \<and> map_of (neighbours ra') b \<noteq> None"
proof (induction ps arbitrary: rs ra)
  case Nil
  then show ?case by simp
next
  case (Cons p ps)
  from sense_pair_fl_keeps_reading [OF Cons.prems, where p = p and fl = fl] obtain r1
    where "map_of (sense_pair_fl fl p rs) a = Some r1" "map_of (neighbours r1) b \<noteq> None" by blast
  from Cons.IH [OF this] show ?case by simp
qed

lemma sense_pair_fl_adds_reading:
  assumes "map_of rs a = Some ra" "map_of rs b = Some rb" "a \<noteq> b" "in_range_fl fl ra rb"
  shows "\<exists>ra'. map_of (sense_pair_fl fl (a, b) rs) a = Some ra' \<and> map_of (neighbours ra') b \<noteq> None"
  using assms by (simp add: sense_pair_fl_unfold update_conv')

lemma fold_sense_pair_fl_complete:
  assumes "(a, b) \<in> set ps" "map_of rs a = Some ra" "map_of rs b = Some rb" "a \<noteq> b"
    "in_range_fl fl ra rb"
  shows "\<exists>ra'. map_of (fold (sense_pair_fl fl) ps rs) a = Some ra' \<and> map_of (neighbours ra') b \<noteq> None"
  using assms
proof (induction ps arbitrary: rs ra rb)
  case Nil
  then show ?case by simp
next
  case (Cons p ps)
  show ?case
  proof (cases "p = (a, b)")
    case True
    from sense_pair_fl_adds_reading [OF Cons.prems(2-5)] obtain r1
      where "map_of (sense_pair_fl fl (a, b) rs) a = Some r1" "map_of (neighbours r1) b \<noteq> None" by blast
    from fold_sense_pair_fl_keeps_reading [OF this, where ps = ps and fl = fl] True show ?thesis by simp
  next
    case False
    with Cons.prems(1) have m: "(a, b) \<in> set ps" by simp
    from sense_pair_fl_lookup' [OF Cons.prems(2), where p = p and fl = fl] obtain ra1
      where ra1: "map_of (sense_pair_fl fl p rs) a = Some ra1" "static_part ra1 = static_part ra" by blast
    from sense_pair_fl_lookup' [OF Cons.prems(3), where p = p and fl = fl] obtain rb1
      where rb1: "map_of (sense_pair_fl fl p rs) b = Some rb1" "static_part rb1 = static_part rb" by blast
    from static_part_cong_fl(1) [OF ra1(2) rb1(2)] Cons.prems(5) have "in_range_fl fl ra1 rb1" by simp
    from Cons.IH [OF m ra1(1) rb1(1) Cons.prems(4) this] show ?thesis by simp
  qed
qed

subsection \<open>The detections of a cycle\<close>

lemma Tag_init_fl_id: "Tag_init_fl fl i raw = Inr t \<Longrightarrow> t_id t = i"
  by (auto simp: Tag_init_fl_def Let_def split: sum.splits)

lemma calibrate_fl_result:
  "calibrate_fl fl s = Inr s1 \<Longrightarrow> calibrated s1 \<and> robots s1 = robots s"
  by (auto simp: calibrate_fl_def Let_def split: if_splits)

lemma process_tag_fl_cases:
  assumes "process_tag_fl fl s d = Inr s'"
  obtains (unchanged) "robots s' = robots s" "calibrated s \<Longrightarrow> calibrated s' \<and> scale_factor s' = scale_factor s"
  | (added) tg pos where "calibrated s" "calibrated s'" "scale_factor s' = scale_factor s"
      "Tag_init_fl fl (fst d) (snd d) = Inr tg" "fst d \<noteq> 0"
      "metric_position_fl fl s tg = Inr pos"
      "robots s' = AList.update (fst d) (Robot_init_fl fl tg pos) (robots s)"
proof -
  from assms obtain tg where tg: "Tag_init_fl fl (fst d) (snd d) = Inr tg"
    by (auto simp: process_tag_fl_def split: sum.splits)
  note i = Tag_init_fl_id [OF tg]
  show ?thesis
  proof (cases "calibrated s")
    case c: True
    show ?thesis
    proof (cases "fst d = 0")
      case True
      with assms tg i c have "s' = s" by (simp add: process_tag_fl_def)
      then show ?thesis by (intro unchanged) simp_all
    next
      case False
      with assms tg i c obtain pos where pos: "metric_position_fl fl s tg = Inr pos"
        and s': "s' = s\<lparr>robots := AList.update (fst d) (Robot_init_fl fl tg pos) (robots s)\<rparr>"
        by (auto simp: process_tag_fl_def split: sum.splits)
      from s' c show ?thesis by (intro added [OF c _ _ tg False pos]) simp_all
    qed
  next
    case False
    with assms tg have "robots s' = robots s"
      by (auto simp: process_tag_fl_def split: sum.splits if_splits dest: calibrate_fl_result)
    with False show ?thesis by (intro unchanged) simp_all
  qed
qed

lemma made_from_Nil [simp]: "made_from fl sf ds []"
  by (simp add: made_from_def)

lemma ball_update:
  assumes "\<forall>x \<in> set rs. P x" "P (k, v)"
  shows "\<forall>x \<in> set (AList.update k v rs). P x"
proof
  fix x assume "x \<in> set (AList.update k v rs)"
  with set_update_subset [of k v rs] have "x = (k, v) \<or> x \<in> set rs" by blast
  with assms show "P x" by blast
qed

lemma made_from_update:
  assumes "made_from fl sf ds rs" "Tag_init_fl fl k raw = Inr tg" "(k, raw) \<in> set ds" "k \<noteq> 0"
    and "pos = Vector2D (fl_div fl (fl_of_int fl (vx (centre tg))) sf)
                        (fl_div fl (fl_of_int fl (vy (centre tg))) sf)"
  shows "made_from fl sf ds (AList.update k (Robot_init_fl fl tg pos) rs)"
proof -
  let ?r = "Robot_init_fl fl tg pos"
  let ?P = "\<lambda>x. case x of (k, r) \<Rightarrow> k \<noteq> 0 \<and> r_id r = k
      \<and> (\<exists>raw. (k, raw) \<in> set ds \<and> Tag_init_fl fl k raw = Inr (r_tag r))
      \<and> position r = Vector2D (fl_div fl (fl_of_int fl (vx (centre (r_tag r)))) sf)
                              (fl_div fl (fl_of_int fl (vy (centre (r_tag r)))) sf)
      \<and> orientation r = angle (r_tag r)
      \<and> sensor_range r = fl_lit fl (3 / 10)"
  have new: "?P (k, ?r)"
    using assms(2-5) Tag_init_fl_id [OF assms(2)] by (auto simp: Robot_init_fl_def)
  from assms(1) have old: "\<forall>x \<in> set rs. ?P x" unfolding made_from_def by blast
  from assms(1) have "distinct (map fst (AList.update k ?r rs))"
    by (simp add: made_from_def distinct_update)
  with ball_update [of rs ?P k ?r, OF old new] show ?thesis
    unfolding made_from_def by blast
qed

lemma fresh_update:
  assumes "fresh rs" "r_id r = k" "neighbours r = []"
  shows "fresh (AList.update k r rs)"
proof -
  from assms(1) have "\<forall>x \<in> set rs. case x of (k, r) \<Rightarrow> r_id r = k"
    "\<forall>x \<in> set rs. case x of (k, r) \<Rightarrow> neighbours r = []"
    by (simp_all add: fresh_def keyed_by_id_def)
  from ball_update [OF this(1), of k r] ball_update [OF this(2), of k r] assms
  show ?thesis by (simp add: fresh_def keyed_by_id_def distinct_update)
qed

lemma process_tag_fl_invariant:
  assumes "process_tag_fl fl s d = Inr s'" "d \<in> set ds"
    and "fresh (robots s)"
    and "if calibrated s then made_from fl (scale_factor s) ds (robots s) else robots s = []"
  shows "fresh (robots s') \<and>
         (if calibrated s' then made_from fl (scale_factor s') ds (robots s') else robots s' = [])"
  using assms(1)
proof (cases rule: process_tag_fl_cases)
  case unchanged
  show ?thesis
  proof (cases "calibrated s")
    case True
    from unchanged(2) [OF True] have "calibrated s'" "scale_factor s' = scale_factor s" by simp_all
    with True unchanged(1) assms(3,4) show ?thesis by simp
  next
    case False
    with unchanged(1) assms(3,4) have "fresh (robots s')" "robots s' = []" by simp_all
    then show ?thesis by simp
  qed
next
  case (added tg pos)
  from added(6) have pos: "pos = Vector2D (fl_div fl (fl_of_int fl (vx (centre tg))) (scale_factor s))
                        (fl_div fl (fl_of_int fl (vy (centre tg))) (scale_factor s))"
    by (auto simp: metric_position_fl_def split: if_splits)
  from assms(2) have m: "(fst d, snd d) \<in> set ds" by simp
  from assms(4) added(1) have mf: "made_from fl (scale_factor s) ds (robots s)" by simp
  have "r_id (Robot_init_fl fl tg pos) = fst d" "neighbours (Robot_init_fl fl tg pos) = []"
    using Tag_init_fl_id [OF added(4)] by (simp_all add: Robot_init_fl_def)
  from fresh_update [OF assms(3) this] made_from_update [OF mf added(4) m added(5) pos] added
  show ?thesis by simp
qed

lemma process_tags_fl_invariant:
  "process_tags_fl fl s ds' = Inr s' \<Longrightarrow> set ds' \<subseteq> set ds \<Longrightarrow> fresh (robots s) \<Longrightarrow>
   (if calibrated s then made_from fl (scale_factor s) ds (robots s) else robots s = []) \<Longrightarrow>
   fresh (robots s') \<and>
   (if calibrated s' then made_from fl (scale_factor s') ds (robots s') else robots s' = [])"
proof (induction ds' arbitrary: s)
  case Nil
  then show ?case by auto
next
  case (Cons d ds')
  from Cons.prems(1) obtain s1 where 1: "process_tag_fl fl s d = Inr s1"
    and 2: "process_tags_fl fl s1 ds' = Inr s'"
    by (auto split: sum.splits)
  from Cons.prems(2) have d: "d \<in> set ds" and sub: "set ds' \<subseteq> set ds" by simp_all
  from process_tag_fl_invariant [OF 1 d Cons.prems(3,4)]
  have "fresh (robots s1)"
    "if calibrated s1 then made_from fl (scale_factor s1) ds (robots s1) else robots s1 = []"
    by simp_all
  from Cons.IH [OF 2 sub this] show ?case .
qed

lemma fresh_readings_sound_fl: "fresh rs \<Longrightarrow> readings_sound_fl fl rs"
  by (fastforce simp: fresh_def readings_sound_fl_def dest: map_of_SomeD)

lemma static_part_fields:
  assumes "static_part r = static_part r0"
  shows "r_id r = r_id r0" "r_tag r = r_tag r0" "position r = position r0"
    "orientation r = orientation r0" "sensor_range r = sensor_range r0"
  using arg_cong [OF assms, of r_id] arg_cong [OF assms, of r_tag]
    arg_cong [OF assms, of position] arg_cong [OF assms, of orientation]
    arg_cong [OF assms, of sensor_range]
  by (simp_all add: static_part_def)

lemma made_from_sense_pair_fl:
  assumes "made_from fl sf ds rs"
  shows "made_from fl sf ds (sense_pair_fl fl p rs)"
proof -
  from assms have d: "distinct (map fst (sense_pair_fl fl p rs))"
    by (simp add: sense_pair_fl_keys made_from_def)
  have "k \<noteq> 0 \<and> r_id r = k
      \<and> (\<exists>raw. (k, raw) \<in> set ds \<and> Tag_init_fl fl k raw = Inr (r_tag r))
      \<and> position r = Vector2D (fl_div fl (fl_of_int fl (vx (centre (r_tag r)))) sf)
                              (fl_div fl (fl_of_int fl (vy (centre (r_tag r)))) sf)
      \<and> orientation r = angle (r_tag r)
      \<and> sensor_range r = fl_lit fl (3 / 10)"
    if "(k, r) \<in> set (sense_pair_fl fl p rs)" for k r
  proof -
    from that d have "map_of (sense_pair_fl fl p rs) k = Some r" by simp
    from sense_pair_fl_lookup [OF this] obtain r0 where r0: "map_of rs k = Some r0"
      "static_part r = static_part r0" by blast
    from r0(1) have "(k, r0) \<in> set rs" by (rule map_of_SomeD)
    with assms have "k \<noteq> 0 \<and> r_id r0 = k
      \<and> (\<exists>raw. (k, raw) \<in> set ds \<and> Tag_init_fl fl k raw = Inr (r_tag r0))
      \<and> position r0 = Vector2D (fl_div fl (fl_of_int fl (vx (centre (r_tag r0)))) sf)
                               (fl_div fl (fl_of_int fl (vy (centre (r_tag r0)))) sf)
      \<and> orientation r0 = angle (r_tag r0)
      \<and> sensor_range r0 = fl_lit fl (3 / 10)"
      unfolding made_from_def by blast
    with static_part_fields [OF r0(2)] show ?thesis by simp
  qed
  with d show ?thesis unfolding made_from_def by blast
qed

lemma made_from_fold_fl:
  "made_from fl sf ds rs \<Longrightarrow> made_from fl sf ds (fold (sense_pair_fl fl) ps rs)"
  by (induction ps arbitrary: rs) (simp_all add: made_from_sense_pair_fl)

lemma neighbour_pass_fl_complete:
  assumes "map_of (neighbour_pass_fl fl rs) a = Some ra" "map_of (neighbour_pass_fl fl rs) b = Some rb"
    and "a \<noteq> b" "in_range_fl fl ra rb"
  shows "map_of (neighbours ra) b \<noteq> None"
proof -
  from assms(1) fold_sense_pair_fl_static [of fl "key_pairs rs" rs a]
  obtain ra0 where ra0: "map_of rs a = Some ra0" "static_part ra = static_part ra0"
    by (cases "map_of rs a") (auto simp: neighbour_pass_fl_def)
  from assms(2) fold_sense_pair_fl_static [of fl "key_pairs rs" rs b]
  obtain rb0 where rb0: "map_of rs b = Some rb0" "static_part rb = static_part rb0"
    by (cases "map_of rs b") (auto simp: neighbour_pass_fl_def)
  from static_part_cong_fl(1) [OF ra0(2) rb0(2)] assms(4) have "in_range_fl fl ra0 rb0" by simp
  from fold_sense_pair_fl_complete [OF key_pairs_mem [OF ra0(1) rb0(1)] ra0(1) rb0(1) assms(3) this]
  show ?thesis using assms(1) by (simp add: neighbour_pass_fl_def)
qed

lemma run_cycle_fl_cases:
  assumes "run_cycle_fl fl s f = Inr s'"
  obtains (idle) "robots s' = []"
  | (uncalibrated) "process_tags_fl fl (s\<lparr>robots := []\<rparr>) (frame_detections f) = Inr s'"
      "\<not> calibrated s'"
  | (calibrated) s1 where "process_tags_fl fl (s\<lparr>robots := []\<rparr>) (frame_detections f) = Inr s1"
      "calibrated s1" "s' = s1\<lparr>robots := neighbour_pass_fl fl (robots s1)\<rparr>"
proof (cases "tag_ids f")
  case None
  with assms show ?thesis by (intro idle) (auto simp: run_cycle_fl_def)
next
  case (Some ids)
  show ?thesis
  proof (cases "length ids > 0")
    case False
    with Some assms show ?thesis by (intro idle) (auto simp: run_cycle_fl_def)
  next
    case True
    with Some have fd: "frame_detections f = detections ids (raw_tags f)"
      by (simp add: frame_detections_def)
    from assms Some True obtain s1
      where s1: "process_tags_fl fl (s\<lparr>robots := []\<rparr>) (detections ids (raw_tags f)) = Inr s1"
      by (auto simp: run_cycle_fl_def Let_def split: sum.splits)
    show ?thesis
    proof (cases "calibrated s1")
      case c: True
      with assms Some True s1 fd show ?thesis
        by (intro calibrated [of s1]) (simp_all add: run_cycle_fl_def Let_def)
    next
      case c: False
      with assms Some True s1 fd show ?thesis
        by (intro uncalibrated) (simp_all add: run_cycle_fl_def Let_def)
    qed
  qed
qed

lemma run_cycle_fl_invariants:
  assumes "run_cycle_fl fl s f = Inr s'"
  shows "made_from fl (scale_factor s') (frame_detections f) (robots s')"
    "readings_sound_fl fl (robots s')"
proof -
  let ?ds = "frame_detections f"
  have start: "fresh (robots (s\<lparr>robots := []\<rparr>))"
    "if calibrated (s\<lparr>robots := []\<rparr>)
     then made_from fl (scale_factor (s\<lparr>robots := []\<rparr>)) ?ds (robots (s\<lparr>robots := []\<rparr>))
     else robots (s\<lparr>robots := []\<rparr>) = []"
    by simp_all
  have sub: "set ?ds \<subseteq> set ?ds" by simp
  have "made_from fl (scale_factor s') ?ds (robots s') \<and> readings_sound_fl fl (robots s')"
    using assms
  proof (cases rule: run_cycle_fl_cases)
    case idle
    then show ?thesis by (simp add: readings_sound_fl_def)
  next
    case uncalibrated
    from process_tags_fl_invariant [OF uncalibrated(1) sub start] uncalibrated(2)
    have "robots s' = []" by simp
    then show ?thesis by (simp add: readings_sound_fl_def)
  next
    case (calibrated s1)
    from process_tags_fl_invariant [OF calibrated(1) sub start] calibrated(2)
    have f: "fresh (robots s1)" and m: "made_from fl (scale_factor s1) ?ds (robots s1)"
      by simp_all
    from calibrated(3) made_from_fold_fl [OF m, of "key_pairs (robots s1)"]
      readings_sound_fold_fl [OF fresh_readings_sound_fl [OF f], of fl "key_pairs (robots s1)"]
    show ?thesis by (simp add: neighbour_pass_fl_def)
  qed
  then show "made_from fl (scale_factor s') ?ds (robots s')" "readings_sound_fl fl (robots s')"
    by simp_all
qed


subsection \<open>Exact arithmetic as one choice of the operations\<close>

lemma exact_ops_simps [simp]:
  "fl_of_int exact_ops = real_of_int" "fl_lit exact_ops = (\<lambda>x. x)"
  "fl_div exact_ops = (\<lambda>x y. x / y)" "fl_sub exact_ops = (\<lambda>x y. x - y)"
  "fl_dist exact_ops = math_dist" "fl_atan2 exact_ops = atan2" "fl_degrees exact_ops = degrees"
  by (simp_all add: exact_ops_def)

lemma Tag_init_exact: "Tag_init_fl exact_ops i raw = Tag_init i raw"
  by (simp add: Tag_init_fl_def Tag_init_def Let_def split: sum.splits)

lemma metric_position_exact: "metric_position_fl exact_ops s tg = metric_position s tg"
  by (simp add: metric_position_fl_def metric_position_def)

lemma Robot_init_exact: "Robot_init_fl exact_ops tg pos = Robot_init tg pos"
  by (simp add: Robot_init_fl_def Robot_init_def)

lemma calibrate_exact: "calibrate_fl exact_ops s = calibrate s"
  by (simp add: calibrate_fl_def calibrate_def Let_def)

lemma process_tag_exact: "process_tag_fl exact_ops s d = process_tag s d"
  by (simp add: process_tag_fl_def process_tag_def Tag_init_exact metric_position_exact
      Robot_init_exact calibrate_exact split: sum.splits)

lemma process_tags_exact: "process_tags_fl exact_ops s ds = process_tags s ds"
  by (induction ds arbitrary: s) (simp_all add: process_tag_exact split: sum.splits)

lemma sense_pair_exact: "sense_pair_fl exact_ops p rs = sense_pair p rs"
  by (simp add: sense_pair_fl_def sense_pair_def Let_def split: option.splits)

lemma neighbour_pass_exact: "neighbour_pass_fl exact_ops rs = neighbour_pass rs"
proof -
  have "sense_pair_fl exact_ops = sense_pair" by (simp add: fun_eq_iff sense_pair_exact)
  then show ?thesis by (simp add: neighbour_pass_fl_def neighbour_pass_def)
qed

lemma run_cycle_exact: "run_cycle_fl exact_ops s f = run_cycle s f"
  by (simp add: run_cycle_fl_def run_cycle_def process_tags_exact neighbour_pass_exact Let_def
      split: option.splits sum.splits)

subsection \<open>The neighbour relation: claim C8\<close>

text \<open>
  Claim C8 (neighbour relation). Let a cycle complete, whatever the floating-point
  operations return, and let \<open>A\<close> and \<open>B\<close> be the robots its dictionary holds under two
  different keys \<open>a\<close> and \<open>b\<close>. Both are robots of this frame: each is stored under its
  id, was made from a detection of the frame with that id, stands at its tag centre
  divided by the scale factor, and has the sensor range \<^verbatim>\<open>0.3\<close>; \<open>B\<close>'s orientation is the
  heading of \<open>B\<close>'s own tag. Then \<open>b\<close> is a key of \<open>A.neighbours\<close> exactly when the distance
  that \<^verbatim>\<open>math.dist\<close> returns for the two metric positions is strictly less than
  \<open>A.sensor_range\<close>; and a reading stored there has that distance as its range,
  \<^verbatim>\<open>degrees(atan2(B.y - A.y, B.x - A.x))\<close> as its bearing and the heading of \<open>B\<close>'s tag as its
  orientation.
\<close>

theorem neighbour_relation_any_rounding:
  assumes "run_cycle_fl fl s f = Inr s'"
    and "map_of (robots s') a = Some ra" and "map_of (robots s') b = Some rb" and "a \<noteq> b"
  shows "(b \<in> fst ` set (neighbours ra) \<longleftrightarrow>
            fl_dist fl [vx (position ra), vy (position ra)] [vx (position rb), vy (position rb)]
              < sensor_range ra)
       \<and> (\<forall>rd. map_of (neighbours ra) b = Some rd \<longrightarrow>
            sr_range rd =
              fl_dist fl [vx (position ra), vy (position ra)] [vx (position rb), vy (position rb)]
          \<and> sr_bearing rd =
              fl_degrees fl (fl_atan2 fl (fl_sub fl (vy (position rb)) (vy (position ra)))
                                         (fl_sub fl (vx (position rb)) (vx (position ra))))
          \<and> sr_orientation rd = angle (r_tag rb))
       \<and> r_id ra = a \<and> r_id rb = b \<and> a \<noteq> 0 \<and> b \<noteq> 0
       \<and> sensor_range ra = fl_lit fl (3 / 10)
       \<and> orientation rb = angle (r_tag rb)
       \<and> (\<exists>raw. (a, raw) \<in> set (frame_detections f) \<and> Tag_init_fl fl a raw = Inr (r_tag ra))
       \<and> (\<exists>raw. (b, raw) \<in> set (frame_detections f) \<and> Tag_init_fl fl b raw = Inr (r_tag rb))
       \<and> position ra =
           Vector2D (fl_div fl (fl_of_int fl (vx (centre (r_tag ra)))) (scale_factor s'))
                    (fl_div fl (fl_of_int fl (vy (centre (r_tag ra)))) (scale_factor s'))
       \<and> position rb =
           Vector2D (fl_div fl (fl_of_int fl (vx (centre (r_tag rb)))) (scale_factor s'))
                    (fl_div fl (fl_of_int fl (vy (centre (r_tag rb)))) (scale_factor s'))"
proof -
  note inv = run_cycle_fl_invariants [OF assms(1)]
  from assms(2,3) have mem: "(a, ra) \<in> set (robots s')" "(b, rb) \<in> set (robots s')"
    by (auto dest: map_of_SomeD)
  from inv(1) mem(1)
  have A: "a \<noteq> 0" "r_id ra = a"
    "\<exists>raw. (a, raw) \<in> set (frame_detections f) \<and> Tag_init_fl fl a raw = Inr (r_tag ra)"
    "position ra =
       Vector2D (fl_div fl (fl_of_int fl (vx (centre (r_tag ra)))) (scale_factor s'))
                (fl_div fl (fl_of_int fl (vy (centre (r_tag ra)))) (scale_factor s'))"
    "sensor_range ra = fl_lit fl (3 / 10)"
    unfolding made_from_def by blast+
  from inv(1) mem(2)
  have B: "b \<noteq> 0" "r_id rb = b"
    "\<exists>raw. (b, raw) \<in> set (frame_detections f) \<and> Tag_init_fl fl b raw = Inr (r_tag rb)"
    "position rb =
       Vector2D (fl_div fl (fl_of_int fl (vx (centre (r_tag rb)))) (scale_factor s'))
                (fl_div fl (fl_of_int fl (vy (centre (r_tag rb)))) (scale_factor s'))"
    "orientation rb = angle (r_tag rb)"
    unfolding made_from_def by blast+
  have sound: "in_range_fl fl ra rb \<and> rd = reading_of_fl fl ra rb"
    if "map_of (neighbours ra) b = Some rd" for rd
    using inv(2) assms(2,3) that unfolding readings_sound_fl_def by fastforce
  have complete: "map_of (neighbours ra) b \<noteq> None" if "in_range_fl fl ra rb"
    using assms(1)
  proof (cases rule: run_cycle_fl_cases)
    case idle
    with assms(2) show ?thesis by simp
  next
    case uncalibrated
    have "fresh (robots (s\<lparr>robots := []\<rparr>))"
      "if calibrated (s\<lparr>robots := []\<rparr>)
       then made_from fl (scale_factor (s\<lparr>robots := []\<rparr>)) (frame_detections f)
              (robots (s\<lparr>robots := []\<rparr>))
       else robots (s\<lparr>robots := []\<rparr>) = []"
      by simp_all
    from process_tags_fl_invariant [OF uncalibrated(1) subset_refl this] uncalibrated(2) assms(2)
    show ?thesis by simp
  next
    case (calibrated s1)
    with assms(2,3) have "map_of (neighbour_pass_fl fl (robots s1)) a = Some ra"
      "map_of (neighbour_pass_fl fl (robots s1)) b = Some rb" by simp_all
    from neighbour_pass_fl_complete [OF this assms(4) that] show ?thesis .
  qed
  have iff: "b \<in> fst ` set (neighbours ra) \<longleftrightarrow> in_range_fl fl ra rb"
    using sound complete by (auto simp: dom_map_of_conv_image_fst [symmetric])
  have vals: "sr_range rd =
              fl_dist fl [vx (position ra), vy (position ra)] [vx (position rb), vy (position rb)]
          \<and> sr_bearing rd =
              fl_degrees fl (fl_atan2 fl (fl_sub fl (vy (position rb)) (vy (position ra)))
                                         (fl_sub fl (vx (position rb)) (vx (position ra))))
          \<and> sr_orientation rd = angle (r_tag rb)"
    if "map_of (neighbours ra) b = Some rd" for rd
    using sound [OF that] B(5) by (simp add: reading_of_fl_def)
  from iff have iff': "b \<in> fst ` set (neighbours ra) \<longleftrightarrow>
            fl_dist fl [vx (position ra), vy (position ra)] [vx (position rb), vy (position rb)]
              < sensor_range ra"
    by (simp add: in_range_fl_def)
  from iff' vals A B show ?thesis by blast
qed

lemma Tag_init_turned_tag:
  "Tag_init i turned_tag =
     Inr \<lparr>t_id = i, raw_tag = turned_tag,
          corners = [[99, 0], [99, 1], [101, 1], [101, 0]],
          t_tl = Vector2D 99 0, t_tr = Vector2D 99 1, t_br = Vector2D 101 1,
          t_bl = Vector2D 101 0,
          centre = Vector2D 100 0, front = Vector2D 99 0, angle = 180\<rparr>"
  by (simp add: Tag_init_def turned_tag_def corner_point_def getitem_simps py_int_def
      eval_nat_numeral atan2_def degrees_def Let_def)

lemma process_tag_arena_turned:
  "process_tag (arena\<lparr>robots := rs\<rparr>) (8, turned_tag) =
     Inr (arena\<lparr>robots := AList.update 8 robot8_turned rs\<rparr>)"
  by (simp add: process_tag_def Tag_init_turned_tag arena_def metric_position_def
      Robot_init_def robot8_turned_def)

lemma sense_pair_7_turned:
  "sense_pair (7, 8) [(7, robot7), (8, robot8_turned)] =
     [(7, robot7_sees_turned), (8, robot8_turned)]"
  by (simp add: sense_pair_def robot7_def robot8_turned_def robot7_sees_turned_def
      math_dist_horizontal atan2_def degrees_def Let_def)

lemma sense_pair_turned_7:
  "sense_pair (8, 7) [(7, robot7_sees_turned), (8, robot8_turned)] =
     [(7, robot7_sees_turned), (8, robot8_turned_sees_7)]"
  by (simp add: sense_pair_def robot7_def robot8_turned_def robot7_sees_turned_def
      robot8_turned_sees_7_def math_dist_horizontal atan2_def degrees_def Let_def)

lemma run_cycle_turned_frame:
  "run_cycle_fl exact_ops arena turned_frame =
     Inr (arena\<lparr>robots := [(7, robot7_sees_turned), (8, robot8_turned_sees_7)]\<rparr>)"
proof -
  have c: "calibrated (arena\<lparr>robots := rs\<rparr>)" for rs by (simp add: arena_def)
  have p: "process_tags arena [(7, unit_square), (8, turned_tag)] =
             Inr (arena\<lparr>robots := [(7, robot7), (8, robot8_turned)]\<rparr>)"
    using process_tag_arena_7 [of "[]"] process_tag_arena_turned [of "[(7, robot7)]"] by simp
  have "neighbour_pass [(7, robot7), (8, robot8_turned)] =
          [(7, robot7_sees_turned), (8, robot8_turned_sees_7)]"
    by (simp add: neighbour_pass_def key_pairs_def sense_pair_same sense_pair_7_turned
        sense_pair_turned_7)
  then show ?thesis
    using p c
    by (simp add: run_cycle_exact run_cycle_def turned_frame_def detections_def
        del: process_tags.simps)
qed

theorem neighbour_relation_any_rounding_witness:
  "run_cycle_fl exact_ops arena turned_frame =
     Inr (arena\<lparr>robots := [(7, robot7_sees_turned), (8, robot8_turned_sees_7)]\<rparr>)
   \<and> map_of [(7 :: int, robot7_sees_turned), (8, robot8_turned_sees_7)] 7 = Some robot7_sees_turned
   \<and> map_of [(7 :: int, robot7_sees_turned), (8, robot8_turned_sees_7)] 8 = Some robot8_turned_sees_7
   \<and> (7 :: int) \<noteq> 8
   \<and> 8 \<in> fst ` set (neighbours robot7_sees_turned)
   \<and> fl_dist exact_ops [vx (position robot7_sees_turned), vy (position robot7_sees_turned)]
                        [vx (position robot8_turned_sees_7), vy (position robot8_turned_sees_7)]
       = 1 / 5
   \<and> sensor_range robot7_sees_turned = 3 / 10
   \<and> map_of (neighbours robot7_sees_turned) 8 =
       Some \<lparr>sr_range = 1 / 5, sr_bearing = 0, sr_orientation = 180\<rparr>
   \<and> angle (r_tag robot8_turned_sees_7) = 180
   \<and> map_of (neighbours robot8_turned_sees_7) 7 =
       Some \<lparr>sr_range = 1 / 5, sr_bearing = 180, sr_orientation = 0\<rparr>
   \<and> angle (r_tag robot7_sees_turned) = 0"
proof -
  note c = run_cycle_turned_frame
  have l7: "map_of (robots (arena\<lparr>robots := [(7, robot7_sees_turned), (8, robot8_turned_sees_7)]\<rparr>)) 7
              = Some robot7_sees_turned"
    and l8: "map_of (robots (arena\<lparr>robots := [(7, robot7_sees_turned), (8, robot8_turned_sees_7)]\<rparr>)) 8
              = Some robot8_turned_sees_7"
    by simp_all
  have ne: "(7 :: int) \<noteq> 8" "(8 :: int) \<noteq> 7" by simp_all
  have n7: "map_of (neighbours robot7_sees_turned) 8 =
       Some \<lparr>sr_range = 1 / 5, sr_bearing = 0, sr_orientation = 180\<rparr>"
    and n8: "map_of (neighbours robot8_turned_sees_7) 7 =
       Some \<lparr>sr_range = 1 / 5, sr_bearing = 180, sr_orientation = 0\<rparr>"
    by (simp_all add: robot7_sees_turned_def robot8_turned_sees_7_def)
  note a = neighbour_relation_any_rounding [OF c l7 l8 ne(1)]
  note b = neighbour_relation_any_rounding [OF c l8 l7 ne(2)]
  note a2 = a [THEN conjunct2, THEN conjunct1, rule_format, OF n7]
  note b2 = b [THEN conjunct2, THEN conjunct1, rule_format, OF n8]
  from a2 have d: "fl_dist exact_ops
       [vx (position robot7_sees_turned), vy (position robot7_sees_turned)]
       [vx (position robot8_turned_sees_7), vy (position robot8_turned_sees_7)] = 1 / 5"
    by (simp only: SensorReading.simps)
  from a2 have h8: "angle (r_tag robot8_turned_sees_7) = 180"
    by (simp only: SensorReading.simps)
  from b2 have h7: "angle (r_tag robot7_sees_turned) = 0"
    by (simp only: SensorReading.simps)
  have r: "sensor_range robot7_sees_turned = 3 / 10"
    by (simp add: robot7_sees_turned_def robot7_def)
  from a [THEN conjunct1] d r have k: "8 \<in> fst ` set (neighbours robot7_sees_turned)"
    by simp
  from c ne(1) n7 n8 d r k h7 h8 show ?thesis by simp
qed

subsection \<open>Rounding at the boundary of the sensor range\<close>

lemma doubles_ops_simps:
  "fl_of_int doubles_ops = real_of_int" "fl_atan2 doubles_ops = atan2"
  "fl_degrees doubles_ops = degrees"
  "fl_lit doubles_ops (3 / 10) = 5404319552844595 / 18014398509481984"
  "fl_div doubles_ops 342 4 = 342 / 4" "fl_div doubles_ops 2 4 = 2 / 4"
  "fl_div doubles_ops 171 2 = 171 / 2" "fl_div doubles_ops 0 2 = 0"
  "fl_div doubles_ops 942 4 = 942 / 4" "fl_div doubles_ops 471 2 = 471 / 2"
  "fl_div doubles_ops 85 500 = 6124895493223875 / 36028797018963968"
  "fl_div doubles_ops 235 500 = 2116691824864133 / 4503599627370496"
  "fl_div doubles_ops 0 500 = 0"
  by (simp_all add: doubles_ops_def exact_ops_def)

lemma doubles_ops_dist:
  "fl_dist doubles_ops [6124895493223875 / 36028797018963968, 0]
                       [2116691824864133 / 4503599627370496, 0]
     = 2702159776422297 / 9007199254740992"
  "fl_dist doubles_ops [2116691824864133 / 4503599627370496, 0]
                       [6124895493223875 / 36028797018963968, 0]
     = 2702159776422297 / 9007199254740992"
  "fl_sub doubles_ops (2116691824864133 / 4503599627370496) (6124895493223875 / 36028797018963968)
     = 2702159776422297 / 9007199254740992"
  "fl_sub doubles_ops (6124895493223875 / 36028797018963968) (2116691824864133 / 4503599627370496)
     = - (2702159776422297 / 9007199254740992)"
  "fl_sub doubles_ops 0 0 = 0"
  by (simp_all add: doubles_ops_def exact_ops_def)

lemma Tag_init_boundary:
  "Tag_init_fl doubles_ops i [[[85, 0], [86, 0], [86, 1], [85, 1]]] =
     Inr \<lparr>t_id = i, raw_tag = [[[85, 0], [86, 0], [86, 1], [85, 1]]],
          corners = [[85, 0], [86, 0], [86, 1], [85, 1]],
          t_tl = Vector2D 85 0, t_tr = Vector2D 86 0, t_br = Vector2D 86 1, t_bl = Vector2D 85 1,
          centre = Vector2D 85 0, front = Vector2D 85 0, angle = 0\<rparr>"
  "Tag_init_fl doubles_ops i [[[235, 0], [236, 0], [236, 1], [235, 1]]] =
     Inr \<lparr>t_id = i, raw_tag = [[[235, 0], [236, 0], [236, 1], [235, 1]]],
          corners = [[235, 0], [236, 0], [236, 1], [235, 1]],
          t_tl = Vector2D 235 0, t_tr = Vector2D 236 0, t_br = Vector2D 236 1,
          t_bl = Vector2D 235 1,
          centre = Vector2D 235 0, front = Vector2D 235 0, angle = 0\<rparr>"
  by (simp_all add: Tag_init_fl_def corner_point_def getitem_simps py_int_def
      eval_nat_numeral atan2_def degrees_def Let_def doubles_ops_simps)

lemma Tag_init_boundary_exact:
  "Tag_init i [[[85, 0], [86, 0], [86, 1], [85, 1]]] =
     Inr \<lparr>t_id = i, raw_tag = [[[85, 0], [86, 0], [86, 1], [85, 1]]],
          corners = [[85, 0], [86, 0], [86, 1], [85, 1]],
          t_tl = Vector2D 85 0, t_tr = Vector2D 86 0, t_br = Vector2D 86 1, t_bl = Vector2D 85 1,
          centre = Vector2D 85 0, front = Vector2D 85 0, angle = 0\<rparr>"
  "Tag_init i [[[235, 0], [236, 0], [236, 1], [235, 1]]] =
     Inr \<lparr>t_id = i, raw_tag = [[[235, 0], [236, 0], [236, 1], [235, 1]]],
          corners = [[235, 0], [236, 0], [236, 1], [235, 1]],
          t_tl = Vector2D 235 0, t_tr = Vector2D 236 0, t_br = Vector2D 236 1,
          t_bl = Vector2D 235 1,
          centre = Vector2D 235 0, front = Vector2D 235 0, angle = 0\<rparr>"
  by (simp_all add: Tag_init_def corner_point_def getitem_simps py_int_def
      eval_nat_numeral atan2_def degrees_def Let_def)

text \<open>
  The same frame in the same calibrated tracker: with exact arithmetic the distance is
  exactly 0.3 and neither robot has a reading; with the doubles the distance is below
  the double nearest to 0.3 and each robot has a reading of the other.
\<close>

lemma boundary_frame_exact:
  "\<not> isl (run_cycle_fl exact_ops arena boundary_frame) \<and>
   neighbour_keys (robots (projr (run_cycle_fl exact_ops arena boundary_frame))) = [(7, []), (8, [])]"
  by (simp add: run_cycle_exact run_cycle_def boundary_frame_def detections_def process_tag_def
      Tag_init_boundary_exact arena_def metric_position_def Robot_init_def
      neighbour_pass_def key_pairs_def sense_pair_def math_dist_horizontal Let_def
      neighbour_keys_def)

lemma boundary_frame_doubles:
  "\<not> isl (run_cycle_fl doubles_ops arena boundary_frame) \<and>
   neighbour_keys (robots (projr (run_cycle_fl doubles_ops arena boundary_frame))) = [(7, [8]), (8, [7])]"
  by (simp add: run_cycle_fl_def boundary_frame_def detections_def process_tag_fl_def
      Tag_init_boundary arena_def metric_position_fl_def Robot_init_fl_def
      neighbour_pass_fl_def key_pairs_def sense_pair_fl_def Let_def
      neighbour_keys_def doubles_ops_simps doubles_ops_dist)

end
